theory Spec2Isabelle
  imports Complex_Main "HOL-Library.Word"
begin

unbundle bit_operations_syntax

section \<open>Tensors\<close>

text \<open>
  A dense tensor is its shape, its elements in row-major order and the number of bytes
  of one element (what \<^verbatim>\<open>element_size()\<close> reports for its dtype). Floating-point
  elements are idealised as reals: the development only states properties of copying,
  zeroing, taking signs, selecting and exact arithmetic, and says so where rounding would
  matter. Tensors are contiguous, as \<^verbatim>\<open>view(-1)\<close> in the source requires.
\<close>

record 'a tensor =
  shape :: "nat list"
  data :: "'a list"
  element_size :: nat

definition nelement :: "'a tensor \<Rightarrow> nat" where
  "nelement t = prod_list (shape t)"

definition wf_tensor :: "'a tensor \<Rightarrow> bool" where
  "wf_tensor t \<longleftrightarrow> length (data t) = nelement t"

text \<open>The exceptions of the source and of the tensor library, as values.\<close>

datatype error =
    RuntimeError
  | IndexError
  | TypeError
  | AttributeError
  | UnboundLocalError
  | RanOutOfAttempts

text \<open>
  \<^verbatim>\<open>dst[:] = src\<close> (also written \<^verbatim>\<open>dst.data[:] = src\<close>) for tensors of equal shape,
  which is the contract of \<^verbatim>\<open>reduce\<close>: the elements of \<open>src\<close> are copied into \<open>dst\<close>,
  whose shape and dtype stay. A 0-dimensional destination cannot be sliced (IndexError).
  For unequal shapes the library broadcasts when it can and raises otherwise; the
  model does not describe broadcasting and reports every unequal pair as RuntimeError.
\<close>

definition assign :: "'a tensor \<Rightarrow> 'a tensor \<Rightarrow> error + 'a tensor" where
  "assign dst src =
     (if shape dst = [] then Inl IndexError
      else if shape src = shape dst then Inr (dst\<lparr>data := data src\<rparr>)
      else Inl RuntimeError)"


text \<open>\<^verbatim>\<open>mem.zero_()\<close> and \<^verbatim>\<open>mem.data[:] = c\<close> for a number \<open>c\<close>.\<close>

definition fill :: "'a \<Rightarrow> 'a tensor \<Rightarrow> 'a tensor" where
  "fill c t = t\<lparr>data := map (\<lambda>_. c) (data t)\<rparr>"


definition fill_slice :: "'a \<Rightarrow> 'a tensor \<Rightarrow> error + 'a tensor" where
  "fill_slice c t = (if shape t = [] then Inl IndexError else Inr (fill c t))"

section \<open>Bit accounting\<close>

text \<open>\<^verbatim>\<open>def n_bits(tensor): return 8 * tensor.nelement() * tensor.element_size()\<close>\<close>

definition n_bits :: "'a tensor \<Rightarrow> nat" where
  "n_bits t = 8 * nelement t * element_size t"

section \<open>The flat buffer packer\<close>

text \<open>
  \<^verbatim>\<open>TensorBuffer\<close>: the start and end offsets of every tensor, the tensors themselves
  (the source keeps the references and reads their shapes) and the flat buffer.
\<close>

record 'a tensor_buffer =
  start_idx :: "nat list"
  end_idx :: "nat list"
  tensors :: "'a tensor list"
  buffer :: "'a tensor"

text \<open>The loop of the constructor: \<open>indices\<close> starts as \<open>[0]\<close> and grows by one end offset per tensor.\<close>

fun build_indices :: "nat list \<Rightarrow> 'a tensor list \<Rightarrow> nat list" where
  "build_indices indices [] = indices"
| "build_indices indices (t # ts) = build_indices (indices @ [last indices + nelement t]) ts"

text \<open>\<^verbatim>\<open>t.view(-1)\<close>: the same elements with the one-dimensional shape.\<close>

definition view_flat :: "'a tensor \<Rightarrow> 'a tensor" where
  "view_flat t = t\<lparr>shape := [length (data t)]\<rparr>"

text \<open>
  \<^verbatim>\<open>torch.cat\<close> of one-dimensional tensors: it refuses an empty list, and the result is a
  new tensor with the dtype of the operands (the lists of the source are homogeneous).
\<close>

definition cat :: "'a tensor list \<Rightarrow> error + 'a tensor" where
  "cat ts =
     (case ts of
        [] \<Rightarrow> Inl RuntimeError
      | t # _ \<Rightarrow> Inr \<lparr>shape = [length (concat (map data ts))],
                     data = concat (map data ts),
                     element_size = element_size t\<rparr>)"

definition TensorBuffer :: "'a tensor list \<Rightarrow> error + 'a tensor_buffer" where
  "TensorBuffer ts =
     (let indices = build_indices [0] ts in
      case cat (map view_flat ts) of
        Inl e \<Rightarrow> Inl e
      | Inr b \<Rightarrow> Inr \<lparr>start_idx = butlast indices, end_idx = tl indices,
                     tensors = ts, buffer = b\<rparr>)"

text \<open>
  \<^verbatim>\<open>self.buffer[start:end].view(*shape)\<close>: a Python slice is clamped to the buffer; the view
  needs as many elements as the shape asks for, and \<^verbatim>\<open>view()\<close> with no size (the shape of
  a 0-dimensional tensor) is a TypeError.
\<close>

definition view_as :: "nat list \<Rightarrow> 'a tensor \<Rightarrow> error + 'a tensor" where
  "view_as shp t =
     (if shp = [] then Inl TypeError
      else if prod_list shp = length (data t) then Inr (t\<lparr>shape := shp\<rparr>)
      else Inl RuntimeError)"

definition slice :: "nat \<Rightarrow> nat \<Rightarrow> 'a tensor \<Rightarrow> 'a tensor" where
  "slice s e t =
     (let xs = take (e - s) (drop s (data t)) in t\<lparr>shape := [length xs], data := xs\<rparr>)"

definition getitem :: "'a tensor_buffer \<Rightarrow> nat \<Rightarrow> error + 'a tensor" where
  "getitem tb i =
     (if i < length (start_idx tb) \<and> i < length (end_idx tb) \<and> i < length (tensors tb)
      then view_as (shape (tensors tb ! i)) (slice (start_idx tb ! i) (end_idx tb ! i) (buffer tb))
      else Inl IndexError)"

text \<open>
  \<^verbatim>\<open>for tensor, entry in zip(tensors, self): tensor[:] = entry\<close>. Iterating the buffer
  calls \<^verbatim>\<open>__getitem__\<close> with 0, 1, ... and ends at its IndexError; \<open>zip\<close> asks for an entry
  only while a destination is left.
\<close>

fun unpack_from :: "'a tensor_buffer \<Rightarrow> nat \<Rightarrow> 'a tensor list \<Rightarrow> error + 'a tensor list" where
  "unpack_from tb i [] = Inr []"
| "unpack_from tb i (t # ts) =
     (case getitem tb i of
        Inl IndexError \<Rightarrow> Inr (t # ts)
      | Inl e \<Rightarrow> Inl e
      | Inr entry \<Rightarrow>
          (case assign t entry of
             Inl e \<Rightarrow> Inl e
           | Inr t' \<Rightarrow> (case unpack_from tb (Suc i) ts of
                          Inl e \<Rightarrow> Inl e
                        | Inr ts' \<Rightarrow> Inr (t' # ts'))))"

definition unpack :: "'a tensor_buffer \<Rightarrow> 'a tensor list \<Rightarrow> error + 'a tensor list" where
  "unpack tb ts = unpack_from tb 0 ts"

definition bits :: "'a tensor_buffer \<Rightarrow> nat" where
  "bits tb = 8 * nelement (buffer tb) * element_size (buffer tb)"

section \<open>Exact averaging\<close>





section \<open>Top-k selection\<close>















text \<open>The contract of \<^verbatim>\<open>reduce\<close>: sequences of equal length, equal shapes at each index.\<close>

definition same_shapes :: "'a tensor list \<Rightarrow> 'b tensor list \<Rightarrow> bool" where
  "same_shapes xs ys \<longleftrightarrow> list_all2 (\<lambda>x y. shape y = shape x \<and> shape x \<noteq> []) xs ys"

section \<open>The sign codec\<close>

text \<open>
  \<^verbatim>\<open>SignCompressor\<close>. The two functions of the \<^verbatim>\<open>bit2byte\<close> extension are not part of the
  source file: \<open>packing\<close> and \<open>unpacking\<close> take them as the parameters \<open>b2b_packing\<close>
  and \<open>b2b_unpacking\<close>. \<^verbatim>\<open>int32\<close> values are 32-bit words; \<^verbatim>\<open>.float()\<close> reads a word as a
  signed number.
\<close>

type_synonym int32 = "32 word"

definition sign :: "real tensor \<Rightarrow> real tensor" where
  "sign t = t\<lparr>data := map sgn (data t)\<rparr>"

text \<open>\<^verbatim>\<open>.to(dtype=torch.int32)\<close> of a tensor whose values are whole numbers.\<close>

definition to_int32 :: "real tensor \<Rightarrow> int32 tensor" where
  "to_int32 t = \<lparr>shape = shape t, data = map (\<lambda>x. word_of_int \<lfloor>x\<rfloor>) (data t), element_size = 4\<rparr>"

definition to_float :: "int32 tensor \<Rightarrow> real tensor" where
  "to_float t = \<lparr>shape = shape t, data = map (\<lambda>w. real_of_int (sint w)) (data t), element_size = 4\<rparr>"

text \<open>\<^verbatim>\<open>add_elm\<close>: the padding up to a multiple of 32.\<close>

definition add_elm :: "nat \<Rightarrow> nat" where
  "add_elm src_len = (if src_len mod 32 = 0 then 0 else 32 - src_len mod 32)"

text \<open>
  \<^verbatim>\<open>t.view(32, -1)\<close>: the library infers the second size when the number of elements is
  a multiple of 32 (for an empty tensor it is 0) and raises otherwise.
\<close>

definition view_32 :: "'a tensor \<Rightarrow> error + 'a tensor" where
  "view_32 t =
     (if length (data t) mod 32 \<noteq> 0 then Inl RuntimeError
      else Inr (t\<lparr>shape := [32, length (data t) div 32]\<rparr>))"

text \<open>\<^verbatim>\<open>t.view(size)\<close> for a \<^verbatim>\<open>torch.Size\<close>, which may be empty.\<close>

definition view_size :: "nat list \<Rightarrow> 'a tensor \<Rightarrow> error + 'a tensor" where
  "view_size shp t =
     (if prod_list shp = length (data t) then Inr (t\<lparr>shape := shp\<rparr>) else Inl RuntimeError)"

definition packing ::
  "(int32 tensor \<Rightarrow> int32 tensor) \<Rightarrow> real tensor \<Rightarrow> error + (int32 tensor \<times> nat list)" where
  "packing b2b_packing src_tensor =
     (let src_tensor_size = shape src_tensor;
          src = view_flat (sign src_tensor);
          src_len = length (data src);
          new_tensor = replicate (add_elm src_len) 0;
          padded = src\<lparr>shape := [src_len + add_elm src_len], data := data src @ new_tensor\<rparr>
      in case view_32 padded of
           Inl err \<Rightarrow> Inl err
         | Inr src32 \<Rightarrow>
             Inr ((b2b_packing (to_int32 src32))\<lparr>element_size := 4\<rparr>, src_tensor_size))"

definition element_num :: "nat list \<Rightarrow> nat" where
  "element_num sz = fold (\<lambda>s num. num * s) sz 1"

definition unpacking ::
  "(int32 tensor \<Rightarrow> int32 tensor \<Rightarrow> int32 tensor) \<Rightarrow> int32 tensor \<Rightarrow> nat list
     \<Rightarrow> error + real tensor" where
  "unpacking b2b_unpacking src_tensor src_tensor_size =
     (let src_element_num = element_num src_tensor_size;
          n = src_element_num + add_elm src_element_num;
          ones = \<lparr>shape = [n], data = replicate n 1, element_size = 4\<rparr>
      in case view_32 ones of
           Inl err \<Rightarrow> Inl err
         | Inr ones32 \<Rightarrow>
             (let new_tensor = view_flat (b2b_unpacking src_tensor ones32);
                  cut = slice 0 src_element_num new_tensor
              in case view_size src_tensor_size cut of
                   Inl err \<Rightarrow> Inl err
                 | Inr shaped \<Rightarrow>
                     Inr (to_float (shaped\<lparr>data := map (\<lambda>w. - (w + (- 1))) (data shaped)\<rparr>))))"

definition compress ::
  "(int32 tensor \<Rightarrow> int32 tensor) \<Rightarrow> real tensor \<Rightarrow> error + (int32 tensor \<times> nat list)" where
  "compress b2b_packing src_tensor = packing b2b_packing src_tensor"

definition uncompress ::
  "(int32 tensor \<Rightarrow> int32 tensor \<Rightarrow> int32 tensor) \<Rightarrow> int32 tensor \<Rightarrow> nat list
     \<Rightarrow> error + real tensor" where
  "uncompress b2b_unpacking src_tensor src_tensor_size =
     unpacking b2b_unpacking src_tensor src_tensor_size"

section \<open>Sign reducers\<close>

fun uncompress_all ::
  "(int32 tensor \<Rightarrow> int32 tensor \<Rightarrow> int32 tensor) \<Rightarrow> nat list \<Rightarrow> int32 tensor list
     \<Rightarrow> error + real tensor list" where
  "uncompress_all b2b_unpacking sign_size [] = Inr []"
| "uncompress_all b2b_unpacking sign_size (their_bits # rest) =
     (case uncompress b2b_unpacking their_bits sign_size of
        Inl err \<Rightarrow> Inl err
      | Inr uncompressed \<Rightarrow>
          (case uncompress_all b2b_unpacking sign_size rest of
             Inl err \<Rightarrow> Inl err
           | Inr flatsigns \<Rightarrow> Inr (uncompressed # flatsigns)))"

text \<open>\<^verbatim>\<open>torch.stack(flatsigns).sum(dim=0)\<close>: the tensors must have one shape.\<close>

definition stack_sum :: "real tensor list \<Rightarrow> error + real tensor" where
  "stack_sum ts =
     (case ts of
        [] \<Rightarrow> Inl RuntimeError
      | t # rest \<Rightarrow>
          if list_all (\<lambda>u. shape u = shape t) rest
          then Inr (t\<lparr>data := foldl (map2 (+)) (data t) (map data rest)\<rparr>)
          else Inl RuntimeError)"

text \<open>\<^verbatim>\<open>for mem in memory_out: mem.data[:] = c\<close>\<close>

fun fill_all :: "'a \<Rightarrow> 'a tensor list \<Rightarrow> error + 'a tensor list" where
  "fill_all c [] = Inr []"
| "fill_all c (mem # mems) =
     (case fill_slice c mem of
        Inl err \<Rightarrow> Inl err
      | Inr mem' \<Rightarrow>
          (case fill_all c mems of
             Inl err \<Rightarrow> Inl err
           | Inr mems' \<Rightarrow> Inr (mem' # mems')))"

text \<open>
  The part of \<^verbatim>\<open>SignReducer.reduce\<close> before \<^verbatim>\<open>reduce.memory\<close>: the new \<open>grad_out\<close> and
  \<open>bits_communicated\<close>. \<open>gather_bits\<close> is what \<^verbatim>\<open>all_gather\<close> leaves in \<open>bits\<close>.
\<close>

definition SignReducer_average ::
  "nat \<Rightarrow> (int32 tensor \<Rightarrow> int32 tensor) \<Rightarrow> (int32 tensor \<Rightarrow> int32 tensor \<Rightarrow> int32 tensor)
     \<Rightarrow> (int32 tensor \<Rightarrow> int32 tensor list) \<Rightarrow> real tensor list \<Rightarrow> real tensor list
     \<Rightarrow> error + (real tensor list \<times> nat)" where
  "SignReducer_average n_workers b2b_packing b2b_unpacking gather_bits grad_in grad_out =
     (case TensorBuffer grad_in of
        Inl err \<Rightarrow> Inl err
      | Inr flatgrad \<Rightarrow>
          (case compress b2b_packing (buffer flatgrad) of
             Inl err \<Rightarrow> Inl err
           | Inr (my_bits, sign_size) \<Rightarrow>
               (let bits = (if n_workers > 1 then gather_bits my_bits else [my_bits]);
                    bits_communicated = n_bits my_bits
                in case uncompress_all b2b_unpacking sign_size bits of
                     Inl err \<Rightarrow> Inl err
                   | Inr flatsigns \<Rightarrow>
                       (case stack_sum flatsigns of
                          Inl err \<Rightarrow> Inl err
                        | Inr summed \<Rightarrow>
                            (let avg_flatsign =
                                   summed\<lparr>data := map (\<lambda>x. x / real n_workers) (data summed)\<rparr>
                             in case unpack (flatgrad\<lparr>buffer := avg_flatsign\<rparr>) grad_out of
                                  Inl err \<Rightarrow> Inl err
                                | Inr outs \<Rightarrow> Inr (outs, bits_communicated))))))"

text \<open>
  \<^verbatim>\<open>reduce.memory\<close> of \<^verbatim>\<open>SignReducer\<close>:
  \<^verbatim>\<open>mem.data[:] = tensor; mem.data.add_(tensor.sign())\<close>.
\<close>

fun sign_memory :: "real tensor list \<Rightarrow> real tensor list \<Rightarrow> error + real tensor list" where
  "sign_memory (t # ts) (mem # mems) =
     (case assign mem t of
        Inl err \<Rightarrow> Inl err
      | Inr mem1 \<Rightarrow>
          (let mem2 = mem1\<lparr>data := map2 (+) (data mem1) (data (sign t))\<rparr>
           in case sign_memory ts mems of
                Inl err \<Rightarrow> Inl err
              | Inr rest \<Rightarrow> Inr (mem2 # rest)))"
| "sign_memory ts mems = Inr mems"

definition SignReducer_reduce ::
  "nat \<Rightarrow> (int32 tensor \<Rightarrow> int32 tensor) \<Rightarrow> (int32 tensor \<Rightarrow> int32 tensor \<Rightarrow> int32 tensor)
     \<Rightarrow> (int32 tensor \<Rightarrow> int32 tensor list) \<Rightarrow> real tensor list \<Rightarrow> real tensor list
     \<Rightarrow> real tensor list \<Rightarrow> error + (real tensor list \<times> real tensor list \<times> nat)" where
  "SignReducer_reduce n_workers b2b_packing b2b_unpacking gather_bits grad_in grad_out memory_out =
     (case SignReducer_average n_workers b2b_packing b2b_unpacking gather_bits grad_in grad_out of
        Inl err \<Rightarrow> Inl err
      | Inr (outs, bits_communicated) \<Rightarrow>
          (case sign_memory grad_in memory_out of
             Inl err \<Rightarrow> Inl err
           | Inr mems \<Rightarrow> Inr (outs, mems, bits_communicated)))"

text \<open>
  \<^verbatim>\<open>SignSGDwithMajorityVoteReducer.reduce\<close>: the sum of the decoded signs (the first
  tensor, then \<^verbatim>\<open>+=\<close> for each further one), its sign, and the sentinel memory.
\<close>

fun sum_signs :: "real tensor \<Rightarrow> real tensor list \<Rightarrow> error + real tensor" where
  "sum_signs sum_of_signs [] = Inr sum_of_signs"
| "sum_signs sum_of_signs (u # us) =
     (if shape u = shape sum_of_signs
      then sum_signs (sum_of_signs\<lparr>data := map2 (+) (data sum_of_signs) (data u)\<rparr>) us
      else Inl RuntimeError)"

definition MajorityVote_vote ::
  "nat \<Rightarrow> (int32 tensor \<Rightarrow> int32 tensor) \<Rightarrow> (int32 tensor \<Rightarrow> int32 tensor \<Rightarrow> int32 tensor)
     \<Rightarrow> (int32 tensor \<Rightarrow> int32 tensor list) \<Rightarrow> real tensor list \<Rightarrow> real tensor list
     \<Rightarrow> error + (real tensor list \<times> nat)" where
  "MajorityVote_vote n_workers b2b_packing b2b_unpacking gather_bits grad_in grad_out =
     (case TensorBuffer grad_in of
        Inl err \<Rightarrow> Inl err
      | Inr flatgrad \<Rightarrow>
          (case compress b2b_packing (buffer flatgrad) of
             Inl err \<Rightarrow> Inl err
           | Inr (my_bits, sign_size) \<Rightarrow>
               (let bits = (if n_workers > 1 then gather_bits my_bits else [my_bits]);
                    bits_communicated = n_bits my_bits
                in case uncompress_all b2b_unpacking sign_size bits of
                     Inl err \<Rightarrow> Inl err
                   | Inr [] \<Rightarrow> Inl AttributeError
                   | Inr (first # others) \<Rightarrow>
                       (case sum_signs first others of
                          Inl err \<Rightarrow> Inl err
                        | Inr sum_of_signs \<Rightarrow>
                            (case unpack (flatgrad\<lparr>buffer := sign sum_of_signs\<rparr>) grad_out of
                               Inl err \<Rightarrow> Inl err
                             | Inr outs \<Rightarrow> Inr (outs, bits_communicated))))))"

definition SignSGDwithMajorityVoteReducer_reduce ::
  "nat \<Rightarrow> (int32 tensor \<Rightarrow> int32 tensor) \<Rightarrow> (int32 tensor \<Rightarrow> int32 tensor \<Rightarrow> int32 tensor)
     \<Rightarrow> (int32 tensor \<Rightarrow> int32 tensor list) \<Rightarrow> real tensor list \<Rightarrow> real tensor list
     \<Rightarrow> real tensor list \<Rightarrow> error + (real tensor list \<times> real tensor list \<times> nat)" where
  "SignSGDwithMajorityVoteReducer_reduce n_workers b2b_packing b2b_unpacking gather_bits
       grad_in grad_out memory_out =
     (case MajorityVote_vote n_workers b2b_packing b2b_unpacking gather_bits grad_in grad_out of
        Inl err \<Rightarrow> Inl err
      | Inr (outs, bits_communicated) \<Rightarrow>
          (case fill_all (- 10000000) memory_out of
             Inl err \<Rightarrow> Inl err
           | Inr mems \<Rightarrow> Inr (outs, mems, bits_communicated)))"

section \<open>Atomo\<close>

text \<open>
  \<^verbatim>\<open>AtomoReducer.probabilities\<close> with \<open>s = self.rank\<close>. A sum of zero makes every entry NaN in
  the source and 0 here; neither is ever greater than a noise value, so the sampling
  below goes the same way.
\<close>

definition probabilities :: "nat \<Rightarrow> real list \<Rightarrow> real list" where
  "probabilities s eigenvalues =
     (let abs_values = map abs eigenvalues;
          probs = map (\<lambda>a. real s * a / sum_list abs_values) abs_values
      in map (\<lambda>p. if p > 1 then 1 else p) probs)"

text \<open>\<^verbatim>\<open>x[keep]\<close> for a boolean tensor \<open>keep\<close>.\<close>

definition masked :: "bool list \<Rightarrow> 'a list \<Rightarrow> 'a list" where
  "masked keep xs = map snd (filter fst (zip keep xs))"

text \<open>
  \<^verbatim>\<open>torch.rand\<close> is the library's generator: \<open>noise k i\<close> is element \<open>i\<close> of the \<open>k\<close>-th
  vector it draws, and \<open>draws\<close> counts the vectors drawn so far.
  \<open>accept_mask\<close> is \<^verbatim>\<open>probabilities > noise\<close>.
\<close>

definition accept_mask :: "(nat \<Rightarrow> nat \<Rightarrow> real) \<Rightarrow> nat \<Rightarrow> real list \<Rightarrow> bool list" where
  "accept_mask noise k probs = map (\<lambda>i. probs ! i > noise k i) [0..<length probs]"

text \<open>
  The loop of \<^verbatim>\<open>sample_singular_values\<close> on its variables \<open>pick\<close>, \<open>sample_probs\<close>
  (unassigned before the first attempt: \<open>None\<close>) and \<open>n_attempts\<close>, and the
  \<^verbatim>\<open>return pick, sample_probs\<close> after it. The result carries the new count of draws.
\<close>

function sample_loop ::
  "nat \<Rightarrow> (nat \<Rightarrow> nat \<Rightarrow> real) \<Rightarrow> nat \<Rightarrow> real list \<Rightarrow> nat list \<times> real list option \<times> nat
     \<Rightarrow> error + ((nat list \<times> real list) \<times> nat)" where
  "sample_loop rank noise draws probs (pick, sample_probs, n_attempts) =
     (if length pick \<noteq> rank then
        (if n_attempts > 1000 then Inl RanOutOfAttempts
         else
           let keep = accept_mask noise (draws + n_attempts) probs
           in sample_loop rank noise draws probs
                (masked keep [0..<length probs], Some (masked keep probs), n_attempts + 1))
      else
        (case sample_probs of
           None \<Rightarrow> Inl UnboundLocalError
         | Some sp \<Rightarrow> Inr ((pick, sp), draws + n_attempts)))"
  by pat_completeness auto
termination
  by (relation "measure (\<lambda>(rank, noise, draws, probs, pick, sp, n). 1001 - n)") auto

definition sample_singular_values ::
  "nat \<Rightarrow> (nat \<Rightarrow> nat \<Rightarrow> real) \<Rightarrow> nat \<Rightarrow> real list
     \<Rightarrow> error + ((nat list \<times> real list) \<times> nat)" where
  "sample_singular_values rank noise draws probs =
     sample_loop rank noise draws probs ([], None, 0)"

text \<open>The indices that attempt \<open>k\<close> accepts.\<close>

definition picked :: "(nat \<Rightarrow> nat \<Rightarrow> real) \<Rightarrow> nat \<Rightarrow> real list \<Rightarrow> nat list" where
  "picked noise k probs = masked (accept_mask noise k probs) [0..<length probs]"

text \<open>\<^verbatim>\<open>t.view(a, -1)\<close>: the second size must be determined.\<close>

definition view_rows :: "nat \<Rightarrow> 'a tensor \<Rightarrow> error + 'a tensor" where
  "view_rows a t =
     (if a = 0 \<or> length (data t) mod a \<noteq> 0 then Inl RuntimeError
      else Inr (t\<lparr>shape := [a, length (data t) div a]\<rparr>))"

definition squeeze :: "'a tensor \<Rightarrow> 'a tensor" where
  "squeeze t = t\<lparr>shape := filter (\<lambda>s. s \<noteq> 1) (shape t)\<rparr>"

definition reshape_to_2d :: "real tensor \<Rightarrow> error + real tensor" where
  "reshape_to_2d t =
     (if length (shape t) = 1 then view_rows (shape t ! 0 div 2) t
      else if list_all (\<lambda>s. s = 1) (drop 2 (shape t)) then Inr (squeeze t)
      else view_rows ((shape t ! 0 * shape t ! 1) div 2) t)"

text \<open>
  \<^verbatim>\<open>torch.svd\<close> is the library's: \<open>svd\<close> is a parameter, called on a tensor of at least
  two dimensions (the library raises on fewer).
\<close>

type_synonym svd_fn = "real tensor \<Rightarrow> real tensor \<times> real tensor \<times> real tensor"

definition svd_call :: "svd_fn \<Rightarrow> real tensor \<Rightarrow> error + (real tensor \<times> real tensor \<times> real tensor)" where
  "svd_call svd matrix = (if length (shape matrix) < 2 then Inl RuntimeError else Inr (svd matrix))"

text \<open>\<^verbatim>\<open>u[:, sample]\<close> for a matrix and \<^verbatim>\<open>s[sample] / sample_probs\<close> for a vector.\<close>

definition select_columns :: "nat list \<Rightarrow> real tensor \<Rightarrow> error + real tensor" where
  "select_columns idx u =
     (case shape u of
        [m, k] \<Rightarrow>
          if list_ex (\<lambda>j. k \<le> j) idx then Inl IndexError
          else Inr \<lparr>shape = [m, length idx],
                    data = concat (map (\<lambda>i. map (\<lambda>j. data u ! (i * k + j)) idx) [0..<m]),
                    element_size = element_size u\<rparr>
      | _ \<Rightarrow> Inl IndexError)"

definition select_div :: "nat list \<Rightarrow> real list \<Rightarrow> real tensor \<Rightarrow> error + real tensor" where
  "select_div idx sample_probs s =
     (if list_ex (\<lambda>j. length (data s) \<le> j) idx then Inl IndexError
      else if length idx \<noteq> length sample_probs then Inl RuntimeError
      else Inr \<lparr>shape = [length idx],
                data = map2 (\<lambda>j p. data s ! j / p) idx sample_probs,
                element_size = element_size s\<rparr>)"

text \<open>The loop \<^verbatim>\<open>reduce.encode\<close>: the lists \<open>us\<close>, \<open>ss\<close>, \<open>vs\<close> and the new count of draws.\<close>

fun atomo_encode ::
  "nat \<Rightarrow> svd_fn \<Rightarrow> (nat \<Rightarrow> nat \<Rightarrow> real) \<Rightarrow> nat \<Rightarrow> real tensor list
     \<Rightarrow> error + ((real tensor list \<times> real tensor list \<times> real tensor list) \<times> nat)" where
  "atomo_encode rank svd noise draws [] = Inr (([], [], []), draws)"
| "atomo_encode rank svd noise draws (tensor # rest) =
     (case reshape_to_2d tensor of
        Inl err \<Rightarrow> Inl err
      | Inr matrix \<Rightarrow>
     (case svd_call svd matrix of
        Inl err \<Rightarrow> Inl err
      | Inr (u, s, v) \<Rightarrow>
     (case sample_singular_values rank noise draws (probabilities rank (data s)) of
        Inl err \<Rightarrow> Inl err
      | Inr ((sample, sample_probs), draws') \<Rightarrow>
     (case select_columns sample u of
        Inl err \<Rightarrow> Inl err
      | Inr u' \<Rightarrow>
     (case select_columns sample v of
        Inl err \<Rightarrow> Inl err
      | Inr v' \<Rightarrow>
     (case select_div sample sample_probs s of
        Inl err \<Rightarrow> Inl err
      | Inr s' \<Rightarrow>
     (case atomo_encode rank svd noise draws' rest of
        Inl err \<Rightarrow> Inl err
      | Inr ((us, ss, vs), draws'') \<Rightarrow> Inr ((u' # us, s' # ss, v' # vs), draws''))))))))"

text \<open>\<^verbatim>\<open>torch.einsum('md, d, nd -> mn', u, s, v)\<close>\<close>

definition einsum_usv :: "real tensor \<Rightarrow> real tensor \<Rightarrow> real tensor \<Rightarrow> error + real tensor" where
  "einsum_usv u s v =
     (case (shape u, shape s, shape v) of
        ([m, d], [d'], [n, d'']) \<Rightarrow>
          if d = d' \<and> d = d'' then
            Inr \<lparr>shape = [m, n],
                 data = concat (map (\<lambda>i. map (\<lambda>j.
                           sum_list (map (\<lambda>l. data u ! (i * d + l) * data s ! l * data v ! (j * d + l))
                                       [0..<d])) [0..<n]) [0..<m]),
                 element_size = element_size u\<rparr>
          else Inl RuntimeError
      | _ \<Rightarrow> Inl RuntimeError)"

fun einsum_all ::
  "real tensor list \<Rightarrow> real tensor list \<Rightarrow> real tensor list \<Rightarrow> error + real tensor list" where
  "einsum_all (u # us) (s # ss) (v # vs) =
     (case einsum_usv u s v of
        Inl err \<Rightarrow> Inl err
      | Inr d \<Rightarrow> (case einsum_all us ss vs of
                    Inl err \<Rightarrow> Inl err
                  | Inr ds \<Rightarrow> Inr (d # ds)))"
| "einsum_all us ss vs = Inr []"

text \<open>
  The loop \<^verbatim>\<open>reduce.decode\<close>: every worker's buffer is unpacked into the tensors of
  \<open>us + ss + vs\<close> (\<open>cur\<close>, of which the first \<open>k\<close> are \<open>us\<close>, the next \<open>k\<close> are \<open>ss\<close>) and
  decoded.
\<close>

fun atomo_decode ::
  "real tensor_buffer \<Rightarrow> nat \<Rightarrow> real tensor list \<Rightarrow> real tensor list
     \<Rightarrow> error + real tensor list list" where
  "atomo_decode bfr k cur [] = Inr []"
| "atomo_decode bfr k cur (encoded_buffer # rest) =
     (case unpack (bfr\<lparr>buffer := encoded_buffer\<rparr>) cur of
        Inl err \<Rightarrow> Inl err
      | Inr cur' \<Rightarrow>
          (case einsum_all (take k cur') (take k (drop k cur')) (drop (2 * k) cur') of
             Inl err \<Rightarrow> Inl err
           | Inr decoded \<Rightarrow>
               (case atomo_decode bfr k cur' rest of
                  Inl err \<Rightarrow> Inl err
                | Inr further \<Rightarrow> Inr (decoded # further))))"

text \<open>The loop \<^verbatim>\<open>reduce.average\<close>: \<^verbatim>\<open>out.add_(1/self.n_workers, tensor.view(*out.shape))\<close>.\<close>

fun atomo_add :: "nat \<Rightarrow> real tensor list \<Rightarrow> real tensor list \<Rightarrow> error + real tensor list" where
  "atomo_add n (tensor # ts) (out # outs) =
     (case view_as (shape out) tensor of
        Inl err \<Rightarrow> Inl err
      | Inr tv \<Rightarrow>
          (case atomo_add n ts outs of
             Inl err \<Rightarrow> Inl err
           | Inr rest \<Rightarrow>
               Inr (out\<lparr>data := map2 (\<lambda>x y. x + 1 / real n * y) (data out) (data tv)\<rparr> # rest)))"
| "atomo_add n ts outs = Inr outs"

fun atomo_average ::
  "nat \<Rightarrow> real tensor list list \<Rightarrow> real tensor list \<Rightarrow> error + real tensor list" where
  "atomo_average n [] outs = Inr outs"
| "atomo_average n (worker_tensors # rest) outs =
     (case atomo_add n worker_tensors outs of
        Inl err \<Rightarrow> Inl err
      | Inr outs' \<Rightarrow> atomo_average n rest outs')"

text \<open>
  \<^verbatim>\<open>AtomoReducer.reduce\<close> up to \<^verbatim>\<open>reduce.average\<close>; \<open>gather\<close> is what
  \<^verbatim>\<open>bfr.all_gather()\<close> returns with more than one worker.
\<close>

definition atomo_grad ::
  "nat \<Rightarrow> nat \<Rightarrow> svd_fn \<Rightarrow> (nat \<Rightarrow> nat \<Rightarrow> real) \<Rightarrow> nat \<Rightarrow> (real tensor \<Rightarrow> real tensor list)
     \<Rightarrow> real tensor list \<Rightarrow> real tensor list \<Rightarrow> error + (real tensor list \<times> nat \<times> nat)" where
  "atomo_grad n_workers rank svd noise draws gather grad_in grad_out =
     (case atomo_encode rank svd noise draws grad_in of
        Inl err \<Rightarrow> Inl err
      | Inr ((us, ss, vs), draws') \<Rightarrow>
     (case TensorBuffer (us @ ss @ vs) of
        Inl err \<Rightarrow> Inl err
      | Inr bfr \<Rightarrow>
     (let all_workers_encoded = (if n_workers > 1 then gather (buffer bfr) else [buffer bfr]);
          bits_communicated = bits bfr
      in case atomo_decode bfr (length us) (us @ ss @ vs) all_workers_encoded of
           Inl err \<Rightarrow> Inl err
         | Inr all_workers_decoded_tensors \<Rightarrow>
        (case fill_all 0 grad_out of
           Inl err \<Rightarrow> Inl err
         | Inr zeroed \<Rightarrow>
        (case atomo_average n_workers all_workers_decoded_tensors zeroed of
           Inl err \<Rightarrow> Inl err
         | Inr outs \<Rightarrow> Inr (outs, bits_communicated, draws'))))))"

definition AtomoReducer_reduce ::
  "nat \<Rightarrow> nat \<Rightarrow> svd_fn \<Rightarrow> (nat \<Rightarrow> nat \<Rightarrow> real) \<Rightarrow> nat \<Rightarrow> (real tensor \<Rightarrow> real tensor list)
     \<Rightarrow> real tensor list \<Rightarrow> real tensor list \<Rightarrow> real tensor list
     \<Rightarrow> error + ((real tensor list \<times> real tensor list \<times> nat) \<times> nat)" where
  "AtomoReducer_reduce n_workers rank svd noise draws gather grad_in grad_out memory_out =
     (case atomo_grad n_workers rank svd noise draws gather grad_in grad_out of
        Inl err \<Rightarrow> Inl err
      | Inr (outs, bits_communicated, draws') \<Rightarrow>
          (case fill_all (- 10000000) memory_out of
             Inl err \<Rightarrow> Inl err
           | Inr mems \<Rightarrow> Inr ((outs, mems, bits_communicated), draws')))"

section \<open>The bit-packing extension\<close>

text \<open>
  Modelled from the spec: the functions \<^verbatim>\<open>bit2byte.packing\<close> and \<^verbatim>\<open>bit2byte.unpacking\<close>
  of the extension, which the source imports and does not contain. The spec (4.3) says
  that compressing "packs each column of 32 signs into one 32-bit word", that a zero is
  "mapped to a sign bucket", and that uncompressing "unpack[s] bits", "producing
  \<open>{-1, +1}\<close> values". The bit of a negative sign is 1 and that of a positive sign is 0,
  as the source's \<^verbatim>\<open>-new_tensor.add_(-1)\<close> on twice the bit requires; \<open>zero_bit\<close> is the
  bit of a zero, which the spec leaves open. Row \<open>i\<close> of a column is bit \<open>31 - i\<close>.
\<close>

definition sign_bit :: "bool \<Rightarrow> int32 \<Rightarrow> bool" where
  "sign_bit zero_bit w = (if w = 0 then zero_bit else sint w < 0)"

definition pack_column :: "bool list \<Rightarrow> int32" where
  "pack_column bs = foldl (\<lambda>w b. push_bit 1 w OR (if b then 1 else 0)) 0 bs"

definition bit2byte_packing :: "bool \<Rightarrow> int32 tensor \<Rightarrow> int32 tensor" where
  "bit2byte_packing zero_bit src =
     (case shape src of
        [r, c] \<Rightarrow>
          \<lparr>shape = [c],
           data = map (\<lambda>j. pack_column (map (\<lambda>i. sign_bit zero_bit (data src ! (i * c + j))) [0..<r]))
                    [0..<c],
           element_size = 4\<rparr>
      | _ \<Rightarrow> src)"

definition bit2byte_unpacking :: "int32 tensor \<Rightarrow> int32 tensor \<Rightarrow> int32 tensor" where
  "bit2byte_unpacking src dst =
     (case shape dst of
        [r, c] \<Rightarrow>
          dst\<lparr>data := concat (map (\<lambda>i. map (\<lambda>j.
                   push_bit 1 (data dst ! (i * c + j) AND
                               drop_bit (r - 1 - i) (if j < length (data src) then data src ! j else 0)))
                 [0..<c]) [0..<r])\<rparr>
      | _ \<Rightarrow> dst)"

section \<open>Concrete inputs\<close>

text \<open>
  With one worker no collective is called; \<open>no_gather\<close> stands for the transport then.
  The tensors below are the inputs at which the reducers are run in this development.
\<close>

definition no_gather :: "'a \<Rightarrow> 'a list" where
  "no_gather x = []"


definition grad_31 :: "real tensor" where
  "grad_31 = \<lparr>shape = [2], data = [3, 1], element_size = 4\<rparr>"

definition zeros_2 :: "real tensor" where
  "zeros_2 = \<lparr>shape = [2], data = [0, 0], element_size = 4\<rparr>"

definition noise_late :: "nat \<Rightarrow> nat \<Rightarrow> real" where
  "noise_late k i = (if k < 2 then 99 / 100 else 1 / 2)"

definition grad_34 :: "real tensor" where
  "grad_34 = \<lparr>shape = [2], data = [3, 4], element_size = 4\<rparr>"

definition svd_34 :: svd_fn where
  "svd_34 m = (\<lparr>shape = [1, 1], data = [1], element_size = 4\<rparr>,
               \<lparr>shape = [1], data = [5], element_size = 4\<rparr>,
               \<lparr>shape = [2, 1], data = [3 / 5, 4 / 5], element_size = 4\<rparr>)"

definition noise_half :: "nat \<Rightarrow> nat \<Rightarrow> real" where
  "noise_half k i = 1 / 2"

fun starts_from :: "nat \<Rightarrow> nat list \<Rightarrow> nat list" where
  "starts_from s [] = []"
| "starts_from s (k # ks) = s # starts_from (s + k) ks"

fun ends_from :: "nat \<Rightarrow> nat list \<Rightarrow> nat list" where
  "ends_from s [] = []"
| "ends_from s (k # ks) = (s + k) # ends_from (s + k) ks"





definition grad_22 :: "real tensor" where
  "grad_22 = \<lparr>shape = [2, 2], data = [3, - 5, 1, 0], element_size = 4\<rparr>"

definition zeros_22 :: "real tensor" where
  "zeros_22 = \<lparr>shape = [2, 2], data = [0, 0, 0, 0], element_size = 4\<rparr>"



text \<open>
  To speak about copies and aliases the tensors live in a store: a tensor object is an
  address (an index into the list of all tensor objects), a new object gets the next
  address. Every object owns its elements; the views that the operations make inside
  (\<^verbatim>\<open>view(-1)\<close>, the entries of a buffer) read the object they are views of.
\<close>

type_synonym addr = nat

type_synonym 'a store = "'a tensor list"

text \<open>A \<^verbatim>\<open>TensorBuffer\<close> object: its offsets and its references \<open>_tensors\<close> and \<open>buffer\<close>.\<close>

record tensor_buffer_ref =
  ref_start_idx :: "nat list"
  ref_end_idx :: "nat list"
  ref_tensors :: "addr list"
  ref_buffer :: addr

text \<open>The constructor: \<^verbatim>\<open>torch.cat\<close> allocates the buffer as a new object.\<close>

definition TensorBuffer_new :: "'a store \<Rightarrow> addr list \<Rightarrow> error + ('a store \<times> tensor_buffer_ref)" where
  "TensorBuffer_new st refs =
     (case TensorBuffer (map (\<lambda>a. st ! a) refs) of
        Inl e \<Rightarrow> Inl e
      | Inr tb \<Rightarrow>
          Inr (st @ [buffer tb],
               \<lparr>ref_start_idx = start_idx tb, ref_end_idx = end_idx tb,
                ref_tensors = refs, ref_buffer = length st\<rparr>))"

text \<open>The buffer object as the operations see it in a given store.\<close>

definition deref :: "'a store \<Rightarrow> tensor_buffer_ref \<Rightarrow> 'a tensor_buffer" where
  "deref st r =
     \<lparr>start_idx = ref_start_idx r, end_idx = ref_end_idx r,
      tensors = map (\<lambda>a. st ! a) (ref_tensors r), buffer = st ! ref_buffer r\<rparr>"

text \<open>
  \<^verbatim>\<open>unpack\<close> on objects: each entry is read from the store as it is at that moment and
  written into the destination object.
\<close>

fun unpack_into :: "'a store \<Rightarrow> tensor_buffer_ref \<Rightarrow> nat \<Rightarrow> addr list \<Rightarrow> error + 'a store" where
  "unpack_into st r i [] = Inr st"
| "unpack_into st r i (d # ds) =
     (case getitem (deref st r) i of
        Inl IndexError \<Rightarrow> Inr st
      | Inl e \<Rightarrow> Inl e
      | Inr entry \<Rightarrow>
          (case assign (st ! d) entry of
             Inl e \<Rightarrow> Inl e
           | Inr t' \<Rightarrow> unpack_into (st[d := t']) r (Suc i) ds))"

definition store_4 :: "real store" where
  "store_4 = [grad_22, grad_31, zeros_22, zeros_2]"

definition packed_6 :: "real tensor" where
  "packed_6 = \<lparr>shape = [6], data = [3, - 5, 1, 0, 3, 1], element_size = 4\<rparr>"

definition buffer_ref_4 :: tensor_buffer_ref where
  "buffer_ref_4 = \<lparr>ref_start_idx = [0, 4], ref_end_idx = [4, 6], ref_tensors = [0, 1], ref_buffer = 4\<rparr>"

text \<open>What decoding gives for an element \<open>x\<close>: its sign, and for a zero the bucket of zero.\<close>

definition sign_bucket :: "bool \<Rightarrow> real \<Rightarrow> real" where
  "sign_bucket zero_bit x = (if x < 0 then - 1 else if 0 < x then 1 else if zero_bit then - 1 else 1)"

text \<open>The padded signs as \<^verbatim>\<open>int32\<close>, and the words that packing makes of \<open>r\<close> rows of \<open>c\<close> of them.\<close>

definition padded_signs :: "real list \<Rightarrow> int32 list" where
  "padded_signs xs = map (\<lambda>x. word_of_int \<lfloor>x\<rfloor>) (map sgn xs @ replicate (add_elm (length xs)) 0)"

definition packed_words :: "bool \<Rightarrow> nat \<Rightarrow> nat \<Rightarrow> int32 list \<Rightarrow> int32 list" where
  "packed_words zero_bit r c d =
     map (\<lambda>j. pack_column (map (\<lambda>i. sign_bit zero_bit (d ! (i * c + j))) [0..<r])) [0..<c]"

definition grad_5 :: "real tensor" where
  "grad_5 = \<lparr>shape = [5], data = [3, - 1, 0, 2, - 7], element_size = 4\<rparr>"

definition zero_1 :: "real tensor" where
  "zero_1 = \<lparr>shape = [1], data = [0], element_size = 4\<rparr>"

definition empty_0 :: "real tensor" where
  "empty_0 = \<lparr>shape = [0], data = [], element_size = 4\<rparr>"

section \<open>Properties\<close>

lemma assign_same_shape:
  "shape s = shape d \<Longrightarrow> shape d \<noteq> [] \<Longrightarrow> assign d s = Inr (d\<lparr>data := data s\<rparr>)"
  by (simp add: assign_def)


section \<open>Single-worker behaviour\<close>




section \<open>Sampling of singular values\<close>

lemma masked_length_eq:
  "length keep = length xs \<Longrightarrow> length keep = length ys \<Longrightarrow> length (masked keep xs) = length (masked keep ys)"
proof (induction keep arbitrary: xs ys)
  case Nil then show ?case by (simp add: masked_def)
next
  case (Cons b keep)
  then obtain x xs' y ys' where "xs = x # xs'" "ys = y # ys'" by (cases xs; cases ys) auto
  with Cons show ?case by (simp add: masked_def)
qed

lemma masked_map: "masked keep (map f xs) = map f (masked keep xs)"
  by (simp add: masked_def zip_map2 filter_map comp_def case_prod_beta)

lemma masked_upt_probs:
  "length keep = length probs \<Longrightarrow> masked keep probs = map (\<lambda>i. probs ! i) (masked keep [0..<length probs])"
proof -
  assume "length keep = length probs"
  have "probs = map (\<lambda>i. probs ! i) [0..<length probs]" by (simp add: map_nth)
  then have "masked keep probs = masked keep (map (\<lambda>i. probs ! i) [0..<length probs])" by simp
  then show ?thesis by (simp only: masked_map)
qed

lemma picked_probs:
  "masked (accept_mask noise k probs) probs = map (\<lambda>i. probs ! i) (picked noise k probs)"
  unfolding picked_def by (rule masked_upt_probs) (simp add: accept_mask_def)

lemma sample_loop_Inr:
  assumes "sample_loop rank noise d probs (pick, sp, n) = Inr ((p, s), r)"
    and "sp = None \<or> sp = Some (map (\<lambda>i. probs ! i) pick)"
  shows "length p = rank \<and> s = map (\<lambda>i. probs ! i) p \<and>
         ((p = pick \<and> r = d + n) \<or>
          (length pick \<noteq> rank \<and>
           (\<exists>k. n \<le> k \<and> k \<le> 1000 \<and> p = picked noise (d + k) probs \<and> r = d + k + 1 \<and>
               (\<forall>j. n \<le> j \<and> j < k \<longrightarrow> length (picked noise (d + j) probs) \<noteq> rank))))"
  using assms
proof (induction rank noise d probs "(pick, sp, n)" arbitrary: pick sp n rule: sample_loop.induct)
  case (1 rank noise d probs pick sp n)
  show ?case
  proof (cases "length pick = rank")
    case True
    with "1.prems" show ?thesis
      by (subst (asm) sample_loop.simps) (auto split: option.splits)
  next
    case False
    with "1.prems"(1) have n: "n \<le> 1000"
      by (subst (asm) sample_loop.simps) (auto split: if_splits)
    let ?keep = "accept_mask noise (d + n) probs"
    have step: "sample_loop rank noise d probs
                  (masked ?keep [0..<length probs], Some (masked ?keep probs), n + 1) = Inr ((p, s), r)"
      using "1.prems"(1) False n by (subst (asm) sample_loop.simps) (simp add: Let_def)
    have inv: "Some (masked ?keep probs) = None \<or>
               Some (masked ?keep probs) = Some (map (\<lambda>i. probs ! i) (masked ?keep [0..<length probs]))"
      using picked_probs[of noise "d + n" probs] by (simp add: picked_def)
    have n': "\<not> 1000 < n" using n by simp
    from "1.hyps"[OF False n' refl step inv]
    have len: "length p = rank" and sv: "s = map (\<lambda>i. probs ! i) p"
      and alt: "(p = masked ?keep [0..<length probs] \<and> r = d + (n + 1)) \<or>
          (length (masked ?keep [0..<length probs]) \<noteq> rank \<and>
           (\<exists>k. n + 1 \<le> k \<and> k \<le> 1000 \<and> p = picked noise (d + k) probs \<and> r = d + k + 1 \<and>
               (\<forall>j. n + 1 \<le> j \<and> j < k \<longrightarrow> length (picked noise (d + j) probs) \<noteq> rank)))"
      by simp_all
    from alt have "\<exists>k. n \<le> k \<and> k \<le> 1000 \<and> p = picked noise (d + k) probs \<and> r = d + k + 1 \<and>
               (\<forall>j. n \<le> j \<and> j < k \<longrightarrow> length (picked noise (d + j) probs) \<noteq> rank)"
    proof
      assume a: "p = masked ?keep [0..<length probs] \<and> r = d + (n + 1)"
      show ?thesis
        by (rule exI[of _ n]) (use a n in \<open>simp add: picked_def\<close>)
    next
      assume b: "length (masked ?keep [0..<length probs]) \<noteq> rank \<and>
           (\<exists>k. n + 1 \<le> k \<and> k \<le> 1000 \<and> p = picked noise (d + k) probs \<and> r = d + k + 1 \<and>
               (\<forall>j. n + 1 \<le> j \<and> j < k \<longrightarrow> length (picked noise (d + j) probs) \<noteq> rank))"
      then have first: "length (picked noise (d + n) probs) \<noteq> rank" by (simp add: picked_def)
      from b obtain k where k: "n + 1 \<le> k" "k \<le> 1000" "p = picked noise (d + k) probs" "r = d + k + 1"
        and all: "\<forall>j. n + 1 \<le> j \<and> j < k \<longrightarrow> length (picked noise (d + j) probs) \<noteq> rank" by blast
      have "\<forall>j. n \<le> j \<and> j < k \<longrightarrow> length (picked noise (d + j) probs) \<noteq> rank"
      proof (intro allI impI)
        fix j assume j: "n \<le> j \<and> j < k"
        show "length (picked noise (d + j) probs) \<noteq> rank"
        proof (cases "j = n")
          case True
          with first show ?thesis by simp
        next
          case False
          with j all show ?thesis by simp
        qed
      qed
      with k show ?thesis by (intro exI[of _ k]) simp
    qed
    with len sv False show ?thesis by simp
  qed
qed

lemma sample_loop_Inl:
  assumes "sample_loop rank noise d probs (pick, sp, n) = Inl e"
  shows "(e = UnboundLocalError \<and> sp = None \<and> length pick = rank) \<or>
         (e = RanOutOfAttempts \<and> length pick \<noteq> rank \<and>
          (\<forall>j. n \<le> j \<and> j \<le> 1000 \<longrightarrow> length (picked noise (d + j) probs) \<noteq> rank))"
  using assms
proof (induction rank noise d probs "(pick, sp, n)" arbitrary: pick sp n rule: sample_loop.induct)
  case (1 rank noise d probs pick sp n)
  show ?case
  proof (cases "length pick = rank")
    case True
    with "1.prems" show ?thesis
      by (subst (asm) sample_loop.simps) (auto split: option.splits)
  next
    case False
    show ?thesis
    proof (cases "1000 < n")
      case True
      with False "1.prems" show ?thesis
        by (subst (asm) sample_loop.simps) auto
    next
      case big: False
      let ?keep = "accept_mask noise (d + n) probs"
      have step: "sample_loop rank noise d probs
                  (masked ?keep [0..<length probs], Some (masked ?keep probs), n + 1) = Inl e"
        using "1.prems"(1) False big by (subst (asm) sample_loop.simps) (simp add: Let_def)
      from "1.hyps"[OF False big refl step]
      have e: "e = RanOutOfAttempts" and first: "length (picked noise (d + n) probs) \<noteq> rank"
        and later: "\<forall>j. n + 1 \<le> j \<and> j \<le> 1000 \<longrightarrow> length (picked noise (d + j) probs) \<noteq> rank"
        by (simp_all add: picked_def)
      have "\<forall>j. n \<le> j \<and> j \<le> 1000 \<longrightarrow> length (picked noise (d + j) probs) \<noteq> rank"
      proof (intro allI impI)
        fix j assume j: "n \<le> j \<and> j \<le> 1000"
        show "length (picked noise (d + j) probs) \<noteq> rank"
          using first later j by (cases "j = n") simp_all
      qed
      with e False show ?thesis by simp
    qed
  qed
qed

lemma probabilities_nth:
  "i < length eigenvalues \<Longrightarrow>
   probabilities s eigenvalues ! i =
     min 1 (real s * \<bar>eigenvalues ! i\<bar> / sum_list (map abs eigenvalues))"
  by (simp add: probabilities_def Let_def min_def)

text \<open>
  Claim C9. For a rank of at least one, \<^verbatim>\<open>sample_singular_values\<close> either returns the
  indices accepted by one of its first 1001 attempts, exactly \<open>rank\<close> of them, with their
  probabilities, every earlier attempt having accepted another number of indices; or it
  raises "Ran out of attempts" after 1001 attempts none of which accepted \<open>rank\<close>
  indices. The probabilities that \<^verbatim>\<open>reduce\<close> passes are clamped at 1.
\<close>

theorem sample_singular_values_exact_or_raise:
  assumes "0 < rank"
  shows "((\<exists>pick sample_probs k. k \<le> 1000 \<and>
            sample_singular_values rank noise draws probs
              = Inr ((pick, sample_probs), draws + k + 1) \<and>
            length pick = rank \<and> length sample_probs = rank \<and>
            pick = picked noise (draws + k) probs \<and>
            sample_probs = map (\<lambda>i. probs ! i) pick \<and>
            (\<forall>j<k. length (picked noise (draws + j) probs) \<noteq> rank))
          \<or> (sample_singular_values rank noise draws probs = Inl RanOutOfAttempts \<and>
              (\<forall>j\<le>1000. length (picked noise (draws + j) probs) \<noteq> rank)))
         \<and> (\<forall>i<length eigenvalues.
               probabilities rank eigenvalues ! i =
                 min 1 (real rank * \<bar>eigenvalues ! i\<bar> / sum_list (map abs eigenvalues)))"
proof -
  have "(\<exists>pick sample_probs k. k \<le> 1000 \<and>
            sample_singular_values rank noise draws probs
              = Inr ((pick, sample_probs), draws + k + 1) \<and>
            length pick = rank \<and> length sample_probs = rank \<and>
            pick = picked noise (draws + k) probs \<and>
            sample_probs = map (\<lambda>i. probs ! i) pick \<and>
            (\<forall>j<k. length (picked noise (draws + j) probs) \<noteq> rank))
          \<or> (sample_singular_values rank noise draws probs = Inl RanOutOfAttempts \<and>
              (\<forall>j\<le>1000. length (picked noise (draws + j) probs) \<noteq> rank))"
  proof (cases "sample_singular_values rank noise draws probs")
    case (Inl e)
    then have "sample_loop rank noise draws probs ([], None, 0) = Inl e"
      by (simp add: sample_singular_values_def)
    from sample_loop_Inl[OF this] assms
    have "e = RanOutOfAttempts"
      and "\<forall>j. 0 \<le> j \<and> j \<le> 1000 \<longrightarrow> length (picked noise (draws + j) probs) \<noteq> rank"
      by auto
    with Inl show ?thesis by simp
  next
    case (Inr x)
    obtain p s r where x: "x = ((p, s), r)" by (cases x) auto
    with Inr have run: "sample_loop rank noise draws probs ([], None, 0) = Inr ((p, s), r)"
      by (simp add: sample_singular_values_def)
    from sample_loop_Inr[OF run] assms
    have len: "length p = rank" and sv: "s = map (\<lambda>i. probs ! i) p"
      and ex: "\<exists>k. k \<le> 1000 \<and> p = picked noise (draws + k) probs \<and> r = draws + k + 1 \<and>
               (\<forall>j. 0 \<le> j \<and> j < k \<longrightarrow> length (picked noise (draws + j) probs) \<noteq> rank)"
      by auto
    from ex obtain k where k: "k \<le> 1000" "p = picked noise (draws + k) probs" "r = draws + k + 1"
      "\<forall>j<k. length (picked noise (draws + j) probs) \<noteq> rank" by auto
    have "k \<le> 1000 \<and> sample_singular_values rank noise draws probs = Inr ((p, s), draws + k + 1) \<and>
          length p = rank \<and> length s = rank \<and> p = picked noise (draws + k) probs \<and>
          s = map (\<lambda>i. probs ! i) p \<and> (\<forall>j<k. length (picked noise (draws + j) probs) \<noteq> rank)"
      using Inr x k len sv by simp
    then show ?thesis by blast
  qed
  then show ?thesis by (simp add: probabilities_nth)
qed

theorem sample_singular_values_exact_or_raise_witness:
  "0 < (1::nat) \<and>
   sample_singular_values 1 noise_late 0 (probabilities 1 [3, 1]) = Inr (([0], [3 / 4]), 3) \<and>
   picked noise_late 2 (probabilities 1 [3, 1]) = [0] \<and>
   length (picked noise_late 0 (probabilities 1 [3, 1])) \<noteq> 1"
proof -
  have run: "sample_singular_values 1 noise_late 0 (probabilities 1 [3, 1]) = Inr (([0], [3 / 4]), 3)"
    by code_simp
  have p2: "picked noise_late 2 (probabilities 1 [3, 1]) = [0]" by code_simp
  have p0: "picked noise_late 0 (probabilities 1 [3, 1]) = []" by code_simp
  show ?thesis
    using sample_singular_values_exact_or_raise[of 1 noise_late 0 "probabilities 1 [3, 1]" "[3, 1]"]
      run p2 p0 by simp
qed

section \<open>Memory of the sign and Atomo reducers\<close>

lemma fill_all_Inr: "fill_all c ts = Inr ms \<Longrightarrow> ms = map (fill c) ts"
  by (induction ts arbitrary: ms) (auto simp: fill_slice_def split: sum.splits if_splits)

lemma fill_all_elements: "\<forall>m\<in>set (map (fill c) ts). \<forall>x\<in>set (data m). x = c"
  by (auto simp: fill_def)

text \<open>
  Claim C10. When \<^verbatim>\<open>SignSGDwithMajorityVoteReducer.reduce\<close> or \<^verbatim>\<open>AtomoReducer.reduce\<close>
  returns, every memory tensor has been filled with \<open>-10000000\<close>, whatever the gradients,
  the codec, the decomposition, the noise and the other workers were.
\<close>

theorem sentinel_memory:
  "(SignSGDwithMajorityVoteReducer_reduce n_workers b2b_packing b2b_unpacking gather_bits
        grad_in grad_out memory_out = Inr (outs, mems, bits_communicated) \<longrightarrow>
      mems = map (fill (- 10000000)) memory_out \<and>
      (\<forall>m\<in>set mems. \<forall>x\<in>set (data m). x = - 10000000))
   \<and> (AtomoReducer_reduce n_workers' rank svd noise draws gather grad_in' grad_out' memory_out'
        = Inr ((outs', mems', bits_communicated'), draws') \<longrightarrow>
      mems' = map (fill (- 10000000)) memory_out' \<and>
      (\<forall>m\<in>set mems'. \<forall>x\<in>set (data m). x = - 10000000))"
proof (intro conjI impI)
  assume a: "SignSGDwithMajorityVoteReducer_reduce n_workers b2b_packing b2b_unpacking gather_bits
        grad_in grad_out memory_out = Inr (outs, mems, bits_communicated)"
  then have "fill_all (- 10000000) memory_out = Inr mems"
    by (simp add: SignSGDwithMajorityVoteReducer_reduce_def split: sum.splits prod.splits)
  then show m: "mems = map (fill (- 10000000)) memory_out" by (rule fill_all_Inr)
  show "\<forall>m\<in>set mems. \<forall>x\<in>set (data m). x = - 10000000"
    unfolding m by (rule fill_all_elements)
next
  assume a: "AtomoReducer_reduce n_workers' rank svd noise draws gather grad_in' grad_out' memory_out'
        = Inr ((outs', mems', bits_communicated'), draws')"
  then have "fill_all (- 10000000) memory_out' = Inr mems'"
    by (simp add: AtomoReducer_reduce_def split: sum.splits prod.splits)
  then show m: "mems' = map (fill (- 10000000)) memory_out'" by (rule fill_all_Inr)
  show "\<forall>m\<in>set mems'. \<forall>x\<in>set (data m). x = - 10000000"
    unfolding m by (rule fill_all_elements)
qed

theorem sentinel_memory_witness:
  "SignSGDwithMajorityVoteReducer_reduce 1 (bit2byte_packing False) bit2byte_unpacking no_gather
       [grad_31] [zeros_2] [grad_31]
     = Inr ([\<lparr>shape = [2], data = [1, 1], element_size = 4\<rparr>],
            [\<lparr>shape = [2], data = [- 10000000, - 10000000], element_size = 4\<rparr>], 32)
   \<and> AtomoReducer_reduce 1 1 svd_34 noise_half 0 no_gather [grad_34] [zeros_2] [grad_34]
     = Inr (([\<lparr>shape = [2], data = [3, 4], element_size = 4\<rparr>],
             [\<lparr>shape = [2], data = [- 10000000, - 10000000], element_size = 4\<rparr>], 128), 1)
   \<and> map (fill (- 10000000)) [grad_31]
     = [\<lparr>shape = [2], data = [- 10000000, - 10000000], element_size = 4\<rparr>]
   \<and> map (fill (- 10000000)) [grad_34]
     = [\<lparr>shape = [2], data = [- 10000000, - 10000000], element_size = 4\<rparr>]"
proof -
  have mv: "SignSGDwithMajorityVoteReducer_reduce 1 (bit2byte_packing False) bit2byte_unpacking no_gather
       [grad_31] [zeros_2] [grad_31]
     = Inr ([\<lparr>shape = [2], data = [1, 1], element_size = 4\<rparr>],
            [\<lparr>shape = [2], data = [- 10000000, - 10000000], element_size = 4\<rparr>], 32)"
    by code_simp
  have at: "AtomoReducer_reduce 1 1 svd_34 noise_half 0 no_gather [grad_34] [zeros_2] [grad_34]
     = Inr (([\<lparr>shape = [2], data = [3, 4], element_size = 4\<rparr>],
             [\<lparr>shape = [2], data = [- 10000000, - 10000000], element_size = 4\<rparr>], 128), 1)"
    by code_simp
  have a: "[\<lparr>shape = [2], data = [- 10000000, - 10000000], element_size = 4\<rparr>]
             = map (fill (- 10000000)) [grad_31]"
    using sentinel_memory[THEN conjunct1, THEN mp, OF mv, THEN conjunct1] .
  have b: "[\<lparr>shape = [2], data = [- 10000000, - 10000000], element_size = 4\<rparr>]
             = map (fill (- 10000000)) [grad_34]"
    using sentinel_memory[THEN conjunct2, THEN mp, OF at, THEN conjunct1] .
  show ?thesis
    by (intro conjI mv at a[symmetric] b[symmetric])
qed

lemma sign_memory_same_shapes:
  "same_shapes grad_in memory_out \<Longrightarrow>
   sign_memory grad_in memory_out =
     Inr (map2 (\<lambda>mem t. mem\<lparr>data := map (\<lambda>x. x + sgn x) (data t)\<rparr>) memory_out grad_in)"
  unfolding same_shapes_def
proof (induction grad_in memory_out rule: list_all2_induct)
  case Nil
  then show ?case by simp
next
  case (Cons t ts mem mems)
  have "map2 (+) xs (map sgn xs) = map (\<lambda>x. x + sgn x) xs" for xs :: "real list"
    by (induction xs) simp_all
  with Cons show ?case by (simp add: assign_def sign_def)
qed

text \<open>
  Claim C6 says that \<^verbatim>\<open>SignReducer.reduce\<close> leaves \<open>grad_in[i] - sign(grad_in[i])\<close> in
  \<open>memory_out[i]\<close>. The code adds the sign: whenever the call returns, under the contract
  of equal shapes, the memory is \<open>grad_in[i] + sign(grad_in[i])\<close>. The source says so
  itself (\<^verbatim>\<open># should be add_(tensor.sign(), -1) ? to do\<close>).
\<close>

theorem SignReducer_memory_adds_sign:
  assumes "SignReducer_reduce n_workers b2b_packing b2b_unpacking gather_bits grad_in grad_out memory_out
             = Inr (outs, mems, bits_communicated)"
    and "same_shapes grad_in memory_out"
  shows "mems = map2 (\<lambda>mem t. mem\<lparr>data := map (\<lambda>x. x + sgn x) (data t)\<rparr>) memory_out grad_in"
proof -
  from assms(1) have "sign_memory grad_in memory_out = Inr mems"
    by (simp add: SignReducer_reduce_def split: sum.splits prod.splits)
  with sign_memory_same_shapes[OF assms(2)] show ?thesis by simp
qed

theorem SignReducer_memory_adds_sign_witness:
  "SignReducer_reduce 1 (bit2byte_packing False) bit2byte_unpacking no_gather [grad_31] [zeros_2] [zeros_2]
     = Inr ([\<lparr>shape = [2], data = [1, 1], element_size = 4\<rparr>],
            [\<lparr>shape = [2], data = [4, 2], element_size = 4\<rparr>], 32)
   \<and> same_shapes [grad_31] [zeros_2]
   \<and> [\<lparr>shape = [2], data = [4, 2], element_size = 4\<rparr>]
       = map2 (\<lambda>mem t. mem\<lparr>data := map (\<lambda>x. x + sgn x) (data t)\<rparr>) [zeros_2] [grad_31]"
proof -
  have run: "SignReducer_reduce 1 (bit2byte_packing False) bit2byte_unpacking no_gather [grad_31] [zeros_2] [zeros_2]
     = Inr ([\<lparr>shape = [2], data = [1, 1], element_size = 4\<rparr>],
            [\<lparr>shape = [2], data = [4, 2], element_size = 4\<rparr>], 32)"
    by code_simp
  have sh: "same_shapes [grad_31] [zeros_2]"
    by (simp add: same_shapes_def grad_31_def zeros_2_def)
  from SignReducer_memory_adds_sign[OF run sh] run sh show ?thesis by simp
qed

section \<open>Top-k reduction\<close>

lemma butlast_ends_from: "butlast (s # ends_from s ks) = starts_from s ks"
  by (induction ks arbitrary: s) simp_all


lemma build_indices_eq:
  "idx \<noteq> [] \<Longrightarrow> build_indices idx ts = idx @ ends_from (last idx) (map nelement ts)"
  by (induction ts arbitrary: idx) simp_all




















section \<open>The buffer packer: copy, offsets, pack and unpack\<close>

lemma starts_from_nth:
  "i < length xss \<Longrightarrow> starts_from s0 (map length xss) ! i = s0 + length (concat (take i xss))"
proof (induction xss arbitrary: s0 i)
  case Nil then show ?case by simp
next
  case (Cons xs xss)
  then show ?case by (cases i) simp_all
qed

lemma ends_from_nth:
  "i < length xss \<Longrightarrow> ends_from s0 (map length xss) ! i = s0 + length (concat (take (Suc i) xss))"
proof (induction xss arbitrary: s0 i)
  case Nil then show ?case by simp
next
  case (Cons xs xss)
  then show ?case by (cases i) simp_all
qed

lemma length_starts_from [simp]: "length (starts_from s ks) = length ks"
  by (induction ks arbitrary: s) simp_all

lemma length_ends_from [simp]: "length (ends_from s ks) = length ks"
  by (induction ks arbitrary: s) simp_all

lemma concat_segment:
  assumes "i < length xss"
  shows "take (length (xss ! i)) (drop (length (concat (take i xss))) (concat xss)) = xss ! i"
proof -
  have "concat xss = concat (take i xss) @ concat (drop i xss)"
    by (metis append_take_drop_id concat_append)
  then have "drop (length (concat (take i xss))) (concat xss) = concat (drop i xss)"
    by (metis append_eq_conv_conj)
  moreover have "drop i xss = xss ! i # drop (Suc i) xss"
    using assms by (simp add: Cons_nth_drop_Suc)
  ultimately show ?thesis by simp
qed

lemma getitem_segment:
  assumes "start_idx tb = starts_from 0 (map length xss)"
    and "end_idx tb = ends_from 0 (map length xss)"
    and "data (buffer tb) = concat xss"
    and "i < length xss" and "i < length (tensors tb)"
    and "shape (tensors tb ! i) \<noteq> []"
    and "prod_list (shape (tensors tb ! i)) = length (xss ! i)"
  shows "getitem tb i = Inr ((buffer tb)\<lparr>shape := shape (tensors tb ! i), data := xss ! i\<rparr>)"
proof -
  have s: "start_idx tb ! i = length (concat (take i xss))"
    using assms(1,4) starts_from_nth[of i xss 0] by simp
  have e: "end_idx tb ! i = length (concat (take (Suc i) xss))"
    using assms(2,4) ends_from_nth[of i xss 0] by simp
  have "concat (take (Suc i) xss) = concat (take i xss) @ xss ! i"
    using assms(4) by (simp add: take_Suc_conv_app_nth)
  then have d: "end_idx tb ! i - start_idx tb ! i = length (xss ! i)"
    using s e by simp
  have sl: "data (slice (start_idx tb ! i) (end_idx tb ! i) (buffer tb)) = xss ! i"
    unfolding slice_def Let_def using concat_segment[OF assms(4)] d s assms(3) by simp
  have sl2: "slice (start_idx tb ! i) (end_idx tb ! i) (buffer tb)
               = (buffer tb)\<lparr>shape := [length (xss ! i)], data := xss ! i\<rparr>"
    using sl by (simp add: slice_def Let_def)
  have l1: "i < length (start_idx tb)" using assms(1,4) by simp
  have l2: "i < length (end_idx tb)" using assms(2,4) by simp
  show ?thesis
    using l1 l2 assms(5,6,7) by (simp add: getitem_def sl2 view_as_def)
qed

lemma TensorBuffer_Inr:
  assumes "ts \<noteq> []"
  shows "TensorBuffer ts =
           Inr \<lparr>start_idx = starts_from 0 (map nelement ts), end_idx = ends_from 0 (map nelement ts),
                tensors = ts,
                buffer = \<lparr>shape = [length (concat (map data ts))], data = concat (map data ts),
                          element_size = element_size (hd ts)\<rparr>\<rparr>"
proof -
  from assms obtain t ts' where ts: "ts = t # ts'" by (cases ts) auto
  have idx: "build_indices [0] ts = [0] @ ends_from 0 (map nelement ts)"
    using build_indices_eq[of "[0]" ts] by simp
  have st: "butlast ([0] @ ends_from 0 (map nelement ts)) = starts_from 0 (map nelement ts)"
    using butlast_ends_from[of 0 "map nelement ts"] by simp
  show ?thesis
    unfolding TensorBuffer_def idx Let_def st
    by (simp add: cat_def ts view_flat_def comp_def)
qed

lemma unpack_into_result:
  assumes idx: "ref_start_idx r = starts_from 0 (map length xss)"
      "ref_end_idx r = ends_from 0 (map length xss)"
    and buf: "ref_buffer r < length st" "data (st ! ref_buffer r) = concat xss"
    and shapes: "\<forall>a<length st. shape (st ! a) = shp a"
    and refs: "length (ref_tensors r) = length xss" "\<forall>a\<in>set (ref_tensors r). a < length st"
    and srcshape: "\<forall>k<length xss. shp (ref_tensors r ! k) \<noteq> [] \<and>
                      prod_list (shp (ref_tensors r ! k)) = length (xss ! k)"
    and ds: "distinct ds" "\<forall>d\<in>set ds. d < length st \<and> d \<noteq> ref_buffer r"
    and bound: "i + length ds \<le> length xss"
    and dshape: "\<forall>k<length ds. shp (ds ! k) = shp (ref_tensors r ! (i + k))"
  shows "\<exists>st'. unpack_into st r i ds = Inr st' \<and> length st' = length st \<and>
           (\<forall>a<length st. a \<notin> set ds \<longrightarrow> st' ! a = st ! a) \<and>
           (\<forall>k<length ds. st' ! (ds ! k) = (st ! (ds ! k))\<lparr>data := xss ! (i + k)\<rparr>)"
  using buf shapes refs(2) ds bound dshape
proof (induction ds arbitrary: st i)
  case Nil
  then show ?case by simp
next
  case (Cons d ds)
  have i: "i < length xss" using Cons.prems(7) by simp
  have d: "d < length st" "d \<noteq> ref_buffer r" "d \<notin> set ds" "distinct ds"
    using Cons.prems(5,6) by simp_all
  let ?tb = "deref st r"
  have ri: "ref_tensors r ! i < length st" using Cons.prems(4) refs(1) i by simp
  have tsi: "tensors ?tb ! i = st ! (ref_tensors r ! i)"
    using refs(1) i by (simp add: deref_def)
  have shi: "shape (tensors ?tb ! i) = shp (ref_tensors r ! i)"
    using tsi Cons.prems(3) ri by simp
  have g: "getitem ?tb i = Inr ((buffer ?tb)\<lparr>shape := shape (tensors ?tb ! i), data := xss ! i\<rparr>)"
  proof (rule getitem_segment)
    show "start_idx ?tb = starts_from 0 (map length xss)" using idx(1) by (simp add: deref_def)
    show "end_idx ?tb = ends_from 0 (map length xss)" using idx(2) by (simp add: deref_def)
    show "data (buffer ?tb) = concat xss" using Cons.prems(2) by (simp add: deref_def)
    show "i < length xss" by (rule i)
    show "i < length (tensors ?tb)" using refs(1) i by (simp add: deref_def)
    show "shape (tensors ?tb ! i) \<noteq> []" using shi srcshape i by simp
    show "prod_list (shape (tensors ?tb ! i)) = length (xss ! i)" using shi srcshape i by simp
  qed
  let ?entry = "(buffer ?tb)\<lparr>shape := shape (tensors ?tb ! i), data := xss ! i\<rparr>"
  have sd: "shape (st ! d) = shp (ref_tensors r ! i)"
    using Cons.prems(3) d(1) Cons.prems(8)[rule_format, of 0] by simp
  have sne: "shape (st ! d) \<noteq> []" using sd srcshape i by simp
  have a: "assign (st ! d) ?entry = Inr ((st ! d)\<lparr>data := xss ! i\<rparr>)"
    using sd sne shi by (simp add: assign_def)
  let ?st1 = "st[d := (st ! d)\<lparr>data := xss ! i\<rparr>]"
  have step: "unpack_into st r i (d # ds) = unpack_into ?st1 r (Suc i) ds"
    using g a by simp
  have p1: "ref_buffer r < length ?st1" using Cons.prems(1) by simp
  have p2: "data (?st1 ! ref_buffer r) = concat xss" using Cons.prems(2) d(2) by simp
  have p3: "\<forall>a<length ?st1. shape (?st1 ! a) = shp a"
  proof (intro allI impI)
    fix a assume "a < length ?st1"
    then have a: "a < length st" by simp
    show "shape (?st1 ! a) = shp a"
      using Cons.prems(3) a d(1) by (cases "a = d") simp_all
  qed
  have p4: "\<forall>a\<in>set (ref_tensors r). a < length ?st1" using Cons.prems(4) by simp
  have p6: "\<forall>d\<in>set ds. d < length ?st1 \<and> d \<noteq> ref_buffer r" using Cons.prems(6) by simp
  have p7: "Suc i + length ds \<le> length xss" using Cons.prems(7) by simp
  have p8: "\<forall>k<length ds. shp (ds ! k) = shp (ref_tensors r ! (Suc i + k))"
    using Cons.prems(8) by (auto dest: spec[where x = "Suc k" for k])
  from Cons.IH[OF p1 p2 p3 p4 d(4) p6 p7 p8]
  obtain st' where r: "unpack_into ?st1 r (Suc i) ds = Inr st'" "length st' = length ?st1"
    and same: "\<forall>a<length ?st1. a \<notin> set ds \<longrightarrow> st' ! a = ?st1 ! a"
    and upd: "\<forall>k<length ds. st' ! (ds ! k) = (?st1 ! (ds ! k))\<lparr>data := xss ! (Suc i + k)\<rparr>"
    by blast
  have c1: "unpack_into st r i (d # ds) = Inr st'" using step r(1) by simp
  have c2: "length st' = length st" using r(2) by simp
  have c3: "\<forall>a<length st. a \<notin> set (d # ds) \<longrightarrow> st' ! a = st ! a"
    using same by (auto simp: nth_list_update)
  have c4: "\<forall>k<length (d # ds). st' ! ((d # ds) ! k) = (st ! ((d # ds) ! k))\<lparr>data := xss ! (i + k)\<rparr>"
  proof (intro allI impI)
    fix k assume k: "k < length (d # ds)"
    show "st' ! ((d # ds) ! k) = (st ! ((d # ds) ! k))\<lparr>data := xss ! (i + k)\<rparr>"
    proof (cases k)
      case 0
      have "st' ! d = ?st1 ! d" using same d(1,3) by simp
      with 0 d(1) show ?thesis by simp
    next
      case (Suc k')
      with k have k': "k' < length ds" by simp
      then have "ds ! k' \<in> set ds" by simp
      with d(3) have ne: "ds ! k' \<noteq> d" by auto
      from upd k' have "st' ! (ds ! k') = (?st1 ! (ds ! k'))\<lparr>data := xss ! (Suc i + k')\<rparr>" by simp
      with ne Suc show ?thesis by simp
    qed
  qed
  show ?case using c1 c2 c3 c4 by blast
qed

text \<open>
  Claim C7. For a non-empty list of well-formed source tensors of at least one dimension:
  the constructor allocates the buffer as a new object whose elements are those of the
  sources in order, so its element count is the sum of theirs; the offsets come from the
  \<open>nelement\<close> of the sources only; writing to the buffer object leaves every other object
  as it is, and writing to another object leaves the buffer as it is; and in every later
  store that still holds the packed buffer and the shapes, \<^verbatim>\<open>unpack\<close> into distinct
  destination objects of the sources' shapes gives destination \<open>k\<close> the elements that
  source \<open>k\<close> had when it was packed, and changes nothing else.
\<close>

theorem TensorBuffer_pack_unpack:
  assumes ne: "refs \<noteq> []"
    and src: "\<forall>a\<in>set refs. a < length st \<and> wf_tensor (st ! a) \<and> shape (st ! a) \<noteq> []"
    and dst: "distinct dests" "length dests = length refs" "\<forall>d\<in>set dests. d < length st"
    and dshape: "\<forall>k<length refs. shape (st ! (dests ! k)) = shape (st ! (refs ! k))"
  shows "\<exists>b r. TensorBuffer_new st refs = Inr (st @ [b], r) \<and>
           ref_buffer r = length st \<and> ref_tensors r = refs \<and>
           ref_start_idx r = starts_from 0 (map (\<lambda>a. nelement (st ! a)) refs) \<and>
           ref_end_idx r = ends_from 0 (map (\<lambda>a. nelement (st ! a)) refs) \<and>
           nelement b = sum_list (map (\<lambda>a. nelement (st ! a)) refs) \<and>
           data b = concat (map (\<lambda>a. data (st ! a)) refs) \<and>
           length (data b) = nelement b \<and>
           (\<forall>a<length st. (st @ [b]) ! a = st ! a) \<and>
           (\<forall>v. \<forall>a<length st. ((st @ [b])[ref_buffer r := v]) ! a = st ! a) \<and>
           (\<forall>v. \<forall>a<length st. ((st @ [b])[a := v]) ! ref_buffer r = b) \<and>
           (\<forall>st2. length st2 = Suc (length st) \<and> st2 ! length st = b \<and>
                  (\<forall>a<length st. shape (st2 ! a) = shape (st ! a)) \<longrightarrow>
              (\<exists>st3. unpack_into st2 r 0 dests = Inr st3 \<and> length st3 = length st2 \<and>
                 (\<forall>k<length refs. data (st3 ! (dests ! k)) = data (st ! (refs ! k)) \<and>
                                  shape (st3 ! (dests ! k)) = shape (st ! (refs ! k))) \<and>
                 (\<forall>a<length st2. a \<notin> set dests \<longrightarrow> st3 ! a = st2 ! a)))"
proof -
  let ?ts = "map (\<lambda>a. st ! a) refs"
  let ?xss = "map (\<lambda>a. data (st ! a)) refs"
  let ?b = "\<lparr>shape = [length (concat (map data ?ts))], data = concat (map data ?ts),
             element_size = element_size (hd ?ts)\<rparr>"
  let ?r = "\<lparr>ref_start_idx = starts_from 0 (map nelement ?ts),
             ref_end_idx = ends_from 0 (map nelement ?ts),
             ref_tensors = refs, ref_buffer = length st\<rparr>"
  have tsne: "?ts \<noteq> []" using ne by simp
  have new: "TensorBuffer_new st refs = Inr (st @ [?b], ?r)"
    unfolding TensorBuffer_new_def TensorBuffer_Inr[OF tsne] by simp
  have nel: "map nelement ?ts = map (\<lambda>a. nelement (st ! a)) refs" by (simp add: comp_def)
  have lens: "map length ?xss = map (\<lambda>a. nelement (st ! a)) refs"
    using src by (simp add: comp_def wf_tensor_def)
  have dat: "map data ?ts = ?xss" by (simp add: comp_def)
  have cnt: "length (concat ?xss) = sum_list (map (\<lambda>a. nelement (st ! a)) refs)"
    by (simp only: length_concat lens)
  have f1: "ref_buffer ?r = length st" "ref_tensors ?r = refs" by simp_all
  have f2: "ref_start_idx ?r = starts_from 0 (map (\<lambda>a. nelement (st ! a)) refs)"
    "ref_end_idx ?r = ends_from 0 (map (\<lambda>a. nelement (st ! a)) refs)"
    by (simp_all only: tensor_buffer_ref.select_convs nel)
  have f3: "nelement ?b = sum_list (map (\<lambda>a. nelement (st ! a)) refs)"
    "data ?b = concat ?xss" "length (data ?b) = nelement ?b"
    using cnt by (simp_all add: nelement_def comp_def)
  have f4: "\<forall>a<length st. (st @ [?b]) ! a = st ! a" by (simp add: nth_append)
  have f5: "\<forall>v. \<forall>a<length st. ((st @ [?b])[ref_buffer ?r := v]) ! a = st ! a"
    by (simp add: nth_append)
  have f6: "\<forall>v. \<forall>a<length st. ((st @ [?b])[a := v]) ! ref_buffer ?r = ?b"
    by (simp add: nth_append list_update_append)
  have f7: "\<forall>st2. length st2 = Suc (length st) \<and> st2 ! length st = ?b \<and>
                  (\<forall>a<length st. shape (st2 ! a) = shape (st ! a)) \<longrightarrow>
              (\<exists>st3. unpack_into st2 ?r 0 dests = Inr st3 \<and> length st3 = length st2 \<and>
                 (\<forall>k<length refs. data (st3 ! (dests ! k)) = data (st ! (refs ! k)) \<and>
                                  shape (st3 ! (dests ! k)) = shape (st ! (refs ! k))) \<and>
                 (\<forall>a<length st2. a \<notin> set dests \<longrightarrow> st3 ! a = st2 ! a))"
  proof (intro allI impI)
    fix st2 :: "'a store"
    assume h: "length st2 = Suc (length st) \<and> st2 ! length st = ?b \<and>
                  (\<forall>a<length st. shape (st2 ! a) = shape (st ! a))"
    let ?shp = "\<lambda>a. shape (st2 ! a)"
    have a1: "ref_start_idx ?r = starts_from 0 (map length ?xss)"
      by (simp only: tensor_buffer_ref.select_convs nel lens)
    have a2: "ref_end_idx ?r = ends_from 0 (map length ?xss)"
      by (simp only: tensor_buffer_ref.select_convs nel lens)
    have a3: "ref_buffer ?r < length st2" using h by simp
    have a4: "data (st2 ! ref_buffer ?r) = concat ?xss" using h by (simp add: comp_def)
    have a5: "\<forall>a<length st2. shape (st2 ! a) = ?shp a" by simp
    have a6: "length (ref_tensors ?r) = length ?xss" by simp
    have a7: "\<forall>a\<in>set (ref_tensors ?r). a < length st2" using src h by auto
    have a8: "\<forall>k<length ?xss. ?shp (ref_tensors ?r ! k) \<noteq> [] \<and>
                prod_list (?shp (ref_tensors ?r ! k)) = length (?xss ! k)"
    proof (intro allI impI)
      fix k assume "k < length ?xss"
      then have k: "k < length refs" by simp
      then have m: "refs ! k \<in> set refs" by simp
      with src have p: "refs ! k < length st" "wf_tensor (st ! (refs ! k))" "shape (st ! (refs ! k)) \<noteq> []"
        by auto
      from h p(1) have "shape (st2 ! (refs ! k)) = shape (st ! (refs ! k))" by simp
      with p k show "?shp (ref_tensors ?r ! k) \<noteq> [] \<and>
                prod_list (?shp (ref_tensors ?r ! k)) = length (?xss ! k)"
        by (simp add: wf_tensor_def nelement_def)
    qed
    have a9: "\<forall>d\<in>set dests. d < length st2 \<and> d \<noteq> ref_buffer ?r" using dst(3) h by auto
    have a10: "0 + length dests \<le> length ?xss" using dst(2) by simp
    have a11: "\<forall>k<length dests. ?shp (dests ! k) = ?shp (ref_tensors ?r ! (0 + k))"
    proof (intro allI impI)
      fix k assume k: "k < length dests"
      then have kr: "k < length refs" using dst(2) by simp
      from k have "dests ! k \<in> set dests" by simp
      with dst(3) have d: "dests ! k < length st" by simp
      from kr have "refs ! k \<in> set refs" by simp
      with src have s: "refs ! k < length st" by simp
      from h d s dshape kr show "?shp (dests ! k) = ?shp (ref_tensors ?r ! (0 + k))" by simp
    qed
    from unpack_into_result[OF a1 a2 a3 a4 a5 a6 a7 a8 dst(1) a9 a10 a11]
    obtain st3 where u: "unpack_into st2 ?r 0 dests = Inr st3" "length st3 = length st2"
      and same: "\<forall>a<length st2. a \<notin> set dests \<longrightarrow> st3 ! a = st2 ! a"
      and upd: "\<forall>k<length dests. st3 ! (dests ! k) = (st2 ! (dests ! k))\<lparr>data := ?xss ! (0 + k)\<rparr>"
      by blast
    have res: "\<forall>k<length refs. data (st3 ! (dests ! k)) = data (st ! (refs ! k)) \<and>
                                  shape (st3 ! (dests ! k)) = shape (st ! (refs ! k))"
    proof (intro allI impI)
      fix k assume kr: "k < length refs"
      then have k: "k < length dests" using dst(2) by simp
      then have "dests ! k \<in> set dests" by simp
      with dst(3) have d: "dests ! k < length st" by simp
      from upd k have e: "st3 ! (dests ! k) = (st2 ! (dests ! k))\<lparr>data := ?xss ! k\<rparr>" by simp
      from h d have "shape (st2 ! (dests ! k)) = shape (st ! (dests ! k))" by simp
      with e dshape kr show "data (st3 ! (dests ! k)) = data (st ! (refs ! k)) \<and>
                                  shape (st3 ! (dests ! k)) = shape (st ! (refs ! k))"
        by simp
    qed
    show "\<exists>st3. unpack_into st2 ?r 0 dests = Inr st3 \<and> length st3 = length st2 \<and>
                 (\<forall>k<length refs. data (st3 ! (dests ! k)) = data (st ! (refs ! k)) \<and>
                                  shape (st3 ! (dests ! k)) = shape (st ! (refs ! k))) \<and>
                 (\<forall>a<length st2. a \<notin> set dests \<longrightarrow> st3 ! a = st2 ! a)"
      using u res same by blast
  qed
  show ?thesis
    apply (rule exI[of _ ?b])
    apply (rule exI[of _ ?r])
    apply (intro conjI)
    apply (rule new)
    apply (rule f1(1))
    apply (rule f1(2))
    apply (rule f2(1))
    apply (rule f2(2))
    apply (rule f3(1))
    apply (rule f3(2))
    apply (rule f3(3))
    apply (rule f4)
    apply (rule f5)
    apply (rule f6)
    apply (rule f7)
    done
qed

theorem TensorBuffer_pack_unpack_witness:
  "[0, 1::nat] \<noteq> [] \<and>
   list_all (\<lambda>a. a < length store_4 \<and> wf_tensor (store_4 ! a) \<and> shape (store_4 ! a) \<noteq> []) [0, 1] \<and>
   distinct [2, 3::nat] \<and> length [2, 3::nat] = length [0, 1::nat] \<and>
   list_all (\<lambda>d. d < length store_4) [2, 3] \<and>
   list_all2 (\<lambda>d a. shape (store_4 ! d) = shape (store_4 ! a)) [2, 3] [0, 1] \<and>
   TensorBuffer_new store_4 [0, 1] = Inr (store_4 @ [packed_6], buffer_ref_4) \<and>
   nelement packed_6 = sum_list (map (\<lambda>a. nelement (store_4 ! a)) [0, 1]) \<and>
   unpack_into (store_4 @ [packed_6]) buffer_ref_4 0 [2, 3]
     = Inr [grad_22, grad_31, grad_22, grad_31, packed_6]"
proof -
  have h1: "[0, 1::nat] \<noteq> []" by simp
  have h2: "\<forall>a\<in>set [0, 1]. a < length store_4 \<and> wf_tensor (store_4 ! a) \<and> shape (store_4 ! a) \<noteq> []"
    by (simp add: store_4_def wf_tensor_def nelement_def grad_22_def grad_31_def)
  have h3: "distinct [2, 3::nat]" by simp
  have h4: "length [2, 3::nat] = length [0, 1::nat]" by simp
  have h5: "\<forall>d\<in>set [2, 3]. d < length store_4" by (simp add: store_4_def)
  have h6: "\<forall>k<length [0, 1::nat]. shape (store_4 ! ([2, 3] ! k)) = shape (store_4 ! ([0, 1] ! k))"
    by (auto simp: store_4_def less_Suc_eq grad_22_def grad_31_def zeros_22_def zeros_2_def)
  have e1: "TensorBuffer_new store_4 [0, 1] = Inr (store_4 @ [packed_6], buffer_ref_4)"
    by code_simp
  have e2: "unpack_into (store_4 @ [packed_6]) buffer_ref_4 0 [2, 3]
     = Inr [grad_22, grad_31, grad_22, grad_31, packed_6]"
    by code_simp
  from TensorBuffer_pack_unpack[OF h1 h2 h3 h4 h5 h6]
  obtain b r where n: "TensorBuffer_new store_4 [0, 1] = Inr (store_4 @ [b], r)"
    and c: "nelement b = sum_list (map (\<lambda>a. nelement (store_4 ! a)) [0, 1])"
    by blast
  from n e1 have "b = packed_6" by simp
  with c have e3: "nelement packed_6 = sum_list (map (\<lambda>a. nelement (store_4 ! a)) [0, 1])" by simp
  have g2: "list_all (\<lambda>a. a < length store_4 \<and> wf_tensor (store_4 ! a) \<and> shape (store_4 ! a) \<noteq> []) [0, 1]"
    using h2 by (simp add: list_all_iff)
  have g5: "list_all (\<lambda>d. d < length store_4) [2, 3]"
    using h5 by (simp add: list_all_iff)
  have g6: "list_all2 (\<lambda>d a. shape (store_4 ! d) = shape (store_4 ! a)) [2, 3] [0, 1]"
    by (simp add: store_4_def grad_22_def grad_31_def zeros_22_def zeros_2_def)
  show ?thesis
    by (intro conjI h1 g2 h3 h4 g5 g6 e1 e2 e3)
qed

section \<open>The sign codec: round trip\<close>

lemma pack_column_snoc:
  "pack_column (bs @ [b]) = push_bit 1 (pack_column bs) OR (if b then 1 else 0)"
  by (simp add: pack_column_def)

lemma bit_shift1:
  "bit (push_bit 1 (w::int32) OR (if b then 1 else 0)) k \<longleftrightarrow>
     (if k = 0 then b else k < 32 \<and> bit w (k - 1))"
  unfolding bit_or_iff bit_push_bit_iff
  by (cases k; cases b) (simp_all add: possible_bit_word bit_1_iff)

lemma bit_pack_column:
  "length bs \<le> 32 \<Longrightarrow> bit (pack_column bs) k \<longleftrightarrow> k < length bs \<and> bs ! (length bs - 1 - k)"
proof (induction bs arbitrary: k rule: rev_induct)
  case Nil
  then show ?case by (simp add: pack_column_def)
next
  case (snoc b bs)
  then have IH: "\<And>m. bit (pack_column bs) m \<longleftrightarrow> m < length bs \<and> bs ! (length bs - 1 - m)"
    and len: "length bs < 32" by simp_all
  have step: "bit (pack_column (bs @ [b])) k \<longleftrightarrow> (if k = 0 then b else k < 32 \<and> bit (pack_column bs) (k - 1))"
    by (simp only: pack_column_snoc bit_shift1)
  show ?case
  proof (cases k)
    case 0
    then show ?thesis using step by simp
  next
    case (Suc m)
    have "bit (pack_column (bs @ [b])) k \<longleftrightarrow> Suc m < 32 \<and> bit (pack_column bs) m"
      using Suc step by simp
    also have "\<dots> \<longleftrightarrow> m < length bs \<and> bs ! (length bs - 1 - m)"
      using IH[of m] len by auto
    also have "\<dots> \<longleftrightarrow> k < length (bs @ [b]) \<and> (bs @ [b]) ! (length (bs @ [b]) - 1 - k)"
      using Suc by (auto simp: nth_append)
    finally show ?thesis .
  qed
qed

lemma unpack_bit:
  "push_bit 1 ((1::int32) AND drop_bit m w) = (if bit w m then 2 else 0)"
proof -
  have "(1::int32) AND drop_bit m w = of_bool (bit w m)"
    by (simp only: one_and_eq mod_2_eq_odd bit_iff_odd_drop_bit)
  then show ?thesis by simp
qed

lemma decode_bit:
  "real_of_int (sint (- ((if c then (2::int32) else 0) + (- 1)))) = (if c then - 1 else 1)"
  by simp

lemma concat_rows:
  "concat (map (\<lambda>i. map (\<lambda>j. g (i * c + j)) [0..<c]) [0..<r]) = map g [0..<r * c]"
proof (induction r)
  case 0
  then show ?case by simp
next
  case (Suc r)
  have "map (\<lambda>j. g (r * c + j)) [0..<c] = map g [r * c..<r * c + c]"
    by (simp add: map_add_upt[symmetric] add.commute)
  then have "concat (map (\<lambda>i. map (\<lambda>j. g (i * c + j)) [0..<c]) [0..<Suc r])
        = map g [0..<r * c] @ map g [r * c..<r * c + c]"
    using Suc by simp
  also have "\<dots> = map g ([0..<r * c] @ [r * c..<r * c + c])" by simp
  also have "[0..<r * c] @ [r * c..<r * c + c] = [0..<r * c + c]"
    by (metis le_add1 upt_add_eq_append zero_le)
  finally show ?case by (simp add: add.commute)
qed

lemma padded_length: "(n + add_elm n) mod 32 = 0"
proof (cases "n mod 32 = 0")
  case True
  then show ?thesis by (simp add: add_elm_def)
next
  case False
  have "n mod 32 < 32" by simp
  then have "n + (32 - n mod 32) = 32 * (n div 32) + 32"
    using mult_div_mod_eq[of 32 n] by linarith
  then show ?thesis using False by (simp add: add_elm_def)
qed

lemma padded_length_32: "32 * ((n + add_elm n) div 32) = n + add_elm n"
  using padded_length[of n] by (simp add: mod_eq_0_iff_dvd)

lemma length_padded_signs: "length (padded_signs xs) = length xs + add_elm (length xs)"
  by (simp add: padded_signs_def)

lemma element_num_prod: "element_num sz = prod_list sz"
proof -
  have "fold (\<lambda>s num. num * s) sz a = a * prod_list sz" for a :: nat
    by (induction sz arbitrary: a) (simp_all add: mult.assoc)
  then show ?thesis by (simp add: element_num_def)
qed

lemma bit2byte_packing_eq:
  "bit2byte_packing zb \<lparr>shape = [r, c], data = d, element_size = e\<rparr>
     = \<lparr>shape = [c], data = packed_words zb r c d, element_size = 4\<rparr>"
  by (simp add: bit2byte_packing_def packed_words_def)

lemma unpacked_element:
  assumes "r \<le> 32" and "i < r" and "j < c" and "length d = r * c"
  shows "push_bit 1 (replicate (r * c) (1::int32) ! (i * c + j) AND
                     drop_bit (r - 1 - i)
                       (if j < length (packed_words zb r c d) then packed_words zb r c d ! j else 0))
         = (if sign_bit zb (d ! (i * c + j)) then 2 else 0)"
proof -
  have "i * c + j < Suc i * c" using assms(3) by simp
  also have "\<dots> \<le> r * c" using assms(2) by (intro mult_le_mono1) simp
  finally have lt: "i * c + j < r * c" .
  have one: "replicate (r * c) (1::int32) ! (i * c + j) = 1" using lt by simp
  have w: "(if j < length (packed_words zb r c d) then packed_words zb r c d ! j else 0)
             = pack_column (map (\<lambda>i. sign_bit zb (d ! (i * c + j))) [0..<r])"
    using assms(3) by (simp add: packed_words_def)
  have b: "bit (pack_column (map (\<lambda>i. sign_bit zb (d ! (i * c + j))) [0..<r])) (r - 1 - i)
             \<longleftrightarrow> sign_bit zb (d ! (i * c + j))"
  proof -
    have "r - 1 - (r - 1 - i) = i" using assms(2) by simp
    then show ?thesis
      using assms(1,2) bit_pack_column[of "map (\<lambda>i. sign_bit zb (d ! (i * c + j))) [0..<r]" "r - 1 - i"]
      by simp
  qed
  show ?thesis
    unfolding one w unpack_bit b ..
qed

lemma bit2byte_unpacking_eq:
  assumes "r \<le> 32" and "length d = r * c"
  shows "bit2byte_unpacking \<lparr>shape = [c], data = packed_words zb r c d, element_size = 4\<rparr>
           \<lparr>shape = [r, c], data = replicate (r * c) 1, element_size = 4\<rparr>
         = \<lparr>shape = [r, c], data = map (\<lambda>w. if sign_bit zb w then 2 else 0) d, element_size = 4\<rparr>"
proof -
  let ?W = "packed_words zb r c d"
  let ?g = "\<lambda>k. if sign_bit zb (d ! k) then (2::int32) else 0"
  have inner: "map (\<lambda>i. map (\<lambda>j. push_bit 1 (replicate (r * c) (1::int32) ! (i * c + j) AND
                     drop_bit (r - 1 - i) (if j < length ?W then ?W ! j else 0))) [0..<c]) [0..<r]
             = map (\<lambda>i. map (\<lambda>j. ?g (i * c + j)) [0..<c]) [0..<r]"
  proof (rule map_cong[OF refl])
    fix i assume "i \<in> set [0..<r]"
    then have i: "i < r" by simp
    show "map (\<lambda>j. push_bit 1 (replicate (r * c) (1::int32) ! (i * c + j) AND
                     drop_bit (r - 1 - i) (if j < length ?W then ?W ! j else 0))) [0..<c]
          = map (\<lambda>j. ?g (i * c + j)) [0..<c]"
    proof (rule map_cong[OF refl])
      fix j assume "j \<in> set [0..<c]"
      then have j: "j < c" by simp
      show "push_bit 1 (replicate (r * c) (1::int32) ! (i * c + j) AND
                     drop_bit (r - 1 - i) (if j < length ?W then ?W ! j else 0)) = ?g (i * c + j)"
        by (rule unpacked_element[OF assms(1) i j assms(2)])
    qed
  qed
  let ?SRC = "\<lparr>shape = [c], data = ?W, element_size = 4\<rparr>"
  let ?DST = "\<lparr>shape = [r, c], data = replicate (r * c) (1::int32), element_size = 4\<rparr>"
  have U: "bit2byte_unpacking ?SRC ?DST
             = ?DST\<lparr>data := concat (map (\<lambda>i. map (\<lambda>j.
                   push_bit 1 (data ?DST ! (i * c + j) AND
                               drop_bit (r - 1 - i) (if j < length (data ?SRC) then data ?SRC ! j else 0)))
                 [0..<c]) [0..<r])\<rparr>"
    by (simp add: bit2byte_unpacking_def)
  have "concat (map (\<lambda>i. map (\<lambda>j. push_bit 1 (replicate (r * c) (1::int32) ! (i * c + j) AND
                     drop_bit (r - 1 - i) (if j < length ?W then ?W ! j else 0))) [0..<c]) [0..<r])
          = map ?g [0..<r * c]"
    unfolding inner by (rule concat_rows)
  also have "\<dots> = map (\<lambda>w. if sign_bit zb w then 2 else 0) (map (\<lambda>k. d ! k) [0..<length d])"
    using assms(2) by (simp add: comp_def)
  also have "\<dots> = map (\<lambda>w. if sign_bit zb w then 2 else 0) d"
    by (simp only: map_nth)
  finally have C: "concat (map (\<lambda>i. map (\<lambda>j. push_bit 1 (replicate (r * c) (1::int32) ! (i * c + j) AND
                     drop_bit (r - 1 - i) (if j < length ?W then ?W ! j else 0))) [0..<c]) [0..<r])
          = map (\<lambda>w. if sign_bit zb w then 2 else 0) d" .
  show ?thesis
    unfolding U tensor.select_convs C by simp
qed

lemma decode_sign:
  "real_of_int (sint (- ((if sign_bit zb (word_of_int \<lfloor>sgn x\<rfloor>) then (2::int32) else 0) + (- 1))))
     = sign_bucket zb x"
proof -
  consider "x < 0" | "x = 0" | "0 < x" by linarith
  then show ?thesis
  proof cases
    case 1
    then have "sgn x = - 1" by simp
    then have "\<lfloor>sgn x\<rfloor> = (- 1::int)" by (simp add: floor_eq_iff)
    then show ?thesis using 1 by (simp add: sign_bit_def sign_bucket_def)
  next
    case 2
    then show ?thesis by (simp add: sign_bit_def sign_bucket_def)
  next
    case 3
    then have "sgn x = 1" by simp
    then have "\<lfloor>sgn x\<rfloor> = (1::int)" by (simp add: floor_eq_iff)
    then show ?thesis using 3 by (simp add: sign_bit_def sign_bucket_def)
  qed
qed

lemma packing_result:
  "packing (bit2byte_packing zb) t =
           Inr (\<lparr>shape = [(length (data t) + add_elm (length (data t))) div 32],
                 data = packed_words zb 32 ((length (data t) + add_elm (length (data t))) div 32)
                          (padded_signs (data t)),
                 element_size = 4\<rparr>, shape t)"
proof -
  let ?n = "length (data t)"
  let ?c = "(?n + add_elm ?n) div 32"
  let ?T = "(view_flat (sign t))\<lparr>shape := [?n + add_elm ?n],
              data := data (view_flat (sign t)) @ replicate (add_elm ?n) 0\<rparr>"
  have n: "length (data (view_flat (sign t))) = ?n" by (simp add: view_flat_def sign_def)
  have v: "view_32 ?T = Inr (?T\<lparr>shape := [32, ?c]\<rparr>)"
    using padded_length[of ?n] by (simp add: view_32_def view_flat_def sign_def)
  have i: "to_int32 (?T\<lparr>shape := [32, ?c]\<rparr>)
             = \<lparr>shape = [32, ?c], data = padded_signs (data t), element_size = 4\<rparr>"
    by (simp add: to_int32_def padded_signs_def view_flat_def sign_def)
  show ?thesis
    unfolding packing_def Let_def n v sum.case i bit2byte_packing_eq by simp
qed

lemma unpacking_result:
  assumes "prod_list sz = n" and "length d = n + add_elm n"
  shows "unpacking bit2byte_unpacking
           \<lparr>shape = [(n + add_elm n) div 32],
            data = packed_words zb 32 ((n + add_elm n) div 32) d, element_size = 4\<rparr> sz
         = Inr \<lparr>shape = sz,
                data = map (\<lambda>w. real_of_int (sint (- ((if sign_bit zb w then (2::int32) else 0) + (- 1)))))
                         (take n d),
                element_size = 4\<rparr>"
proof -
  let ?c = "(n + add_elm n) div 32"
  let ?ones = "\<lparr>shape = [n + add_elm n], data = replicate (n + add_elm n) (1::int32), element_size = 4\<rparr>"
  have len: "n + add_elm n = 32 * ?c" using padded_length_32[of n] by simp
  have v: "view_32 ?ones = Inr \<lparr>shape = [32, ?c], data = replicate (32 * ?c) (1::int32), element_size = 4\<rparr>"
    using padded_length[of n] len by (simp add: view_32_def)
  have d: "length d = 32 * ?c" using assms(2) len by simp
  have u: "bit2byte_unpacking
             \<lparr>shape = [?c], data = packed_words zb 32 ?c d, element_size = 4\<rparr>
             \<lparr>shape = [32, ?c], data = replicate (32 * ?c) 1, element_size = 4\<rparr>
           = \<lparr>shape = [32, ?c], data = map (\<lambda>w. if sign_bit zb w then 2 else 0) d, element_size = 4\<rparr>"
    by (rule bit2byte_unpacking_eq) (simp_all add: d)
  have le: "n \<le> length d" using assms(2) by simp
  show ?thesis
    unfolding unpacking_def Let_def element_num_prod assms(1) v sum.case u
    using le assms(1) by (simp add: view_flat_def slice_def Let_def view_size_def to_float_def take_map)
qed

lemma take_padded_signs:
  "take (length xs) (padded_signs xs) = map (\<lambda>x. word_of_int \<lfloor>sgn x\<rfloor>) xs"
  by (simp add: padded_signs_def)

lemma sign_bucket_sgn:
  "sign_bucket zb x = (if x = 0 then (if zb then - 1 else 1) else sgn x)"
  by (simp add: sign_bucket_def)

text \<open>
  Claim C2, as amended. For every well-formed tensor, of any shape and any length (a
  multiple of 32 or not, also without elements), \<^verbatim>\<open>compress\<close> returns
  \<open>ceil(n / 32)\<close> words and the original shape, and \<^verbatim>\<open>uncompress\<close> of them returns a tensor
  of that shape with \<open>sign(x)\<close> at every non-zero element \<open>x\<close> and, at every zero, the
  value \<open>-1\<close> or \<open>+1\<close> of the bucket that the extension puts zero in.
\<close>

theorem sign_roundtrip:
  assumes "wf_tensor t"
  shows "\<exists>b. compress (bit2byte_packing zero_bit) t = Inr (b, shape t) \<and>
             shape b = [(nelement t + add_elm (nelement t)) div 32] \<and>
             uncompress bit2byte_unpacking b (shape t)
               = Inr \<lparr>shape = shape t,
                      data = map (\<lambda>x. if x = 0 then (if zero_bit then - 1 else 1) else sgn x) (data t),
                      element_size = 4\<rparr>"
proof -
  let ?n = "length (data t)"
  let ?c = "(?n + add_elm ?n) div 32"
  let ?b = "\<lparr>shape = [?c], data = packed_words zero_bit 32 ?c (padded_signs (data t)), element_size = 4\<rparr>"
  from assms have n: "prod_list (shape t) = ?n" "nelement t = ?n"
    by (simp_all add: wf_tensor_def nelement_def)
  have c: "compress (bit2byte_packing zero_bit) t = Inr (?b, shape t)"
    unfolding compress_def by (rule packing_result)
  have "uncompress bit2byte_unpacking ?b (shape t)
          = Inr \<lparr>shape = shape t,
                 data = map (\<lambda>w. real_of_int (sint (- ((if sign_bit zero_bit w then (2::int32) else 0) + (- 1)))))
                          (take ?n (padded_signs (data t))),
                 element_size = 4\<rparr>"
    unfolding uncompress_def
    by (rule unpacking_result[OF n(1)]) (rule length_padded_signs)
  also have "map (\<lambda>w. real_of_int (sint (- ((if sign_bit zero_bit w then (2::int32) else 0) + (- 1)))))
               (take ?n (padded_signs (data t)))
           = map (sign_bucket zero_bit) (data t)"
    unfolding take_padded_signs by (simp only: map_map comp_def decode_sign)
  also have "map (sign_bucket zero_bit) (data t)
           = map (\<lambda>x. if x = 0 then (if zero_bit then - 1 else 1) else sgn x) (data t)"
    by (simp add: sign_bucket_sgn)
  finally have u: "uncompress bit2byte_unpacking ?b (shape t)
          = Inr \<lparr>shape = shape t,
                 data = map (\<lambda>x. if x = 0 then (if zero_bit then - 1 else 1) else sgn x) (data t),
                 element_size = 4\<rparr>" .
  have sh: "shape ?b = [(nelement t + add_elm (nelement t)) div 32]" using n(2) by simp
  from c sh u show ?thesis by blast
qed

theorem sign_roundtrip_witness:
  "wf_tensor grad_5 \<and>
   compress (bit2byte_packing False) grad_5
     = Inr (\<lparr>shape = [1], data = [1207959552], element_size = 4\<rparr>, [5]) \<and>
   uncompress bit2byte_unpacking \<lparr>shape = [1], data = [1207959552], element_size = 4\<rparr> [5]
     = Inr \<lparr>shape = [5], data = [1, - 1, 1, 1, - 1], element_size = 4\<rparr> \<and>
   wf_tensor empty_0 \<and>
   compress (bit2byte_packing False) empty_0
     = Inr (\<lparr>shape = [0], data = [], element_size = 4\<rparr>, [0]) \<and>
   uncompress bit2byte_unpacking \<lparr>shape = [0], data = [], element_size = 4\<rparr> [0]
     = Inr \<lparr>shape = [0], data = [], element_size = 4\<rparr>"
proof -
  have w: "wf_tensor grad_5" by (simp add: wf_tensor_def nelement_def grad_5_def)
  have c: "compress (bit2byte_packing False) grad_5
     = Inr (\<lparr>shape = [1], data = [1207959552], element_size = 4\<rparr>, [5])"
    by code_simp
  from sign_roundtrip[OF w, of False] obtain b where
    b: "compress (bit2byte_packing False) grad_5 = Inr (b, shape grad_5)"
    and u: "uncompress bit2byte_unpacking b (shape grad_5)
               = Inr \<lparr>shape = shape grad_5,
                      data = map (\<lambda>x. if x = 0 then (if False then - 1 else 1) else sgn x) (data grad_5),
                      element_size = 4\<rparr>"
    by blast
  from b c have "b = \<lparr>shape = [1], data = [1207959552], element_size = 4\<rparr>" by simp
  with u have u5: "uncompress bit2byte_unpacking \<lparr>shape = [1], data = [1207959552], element_size = 4\<rparr> [5]
     = Inr \<lparr>shape = [5], data = [1, - 1, 1, 1, - 1], element_size = 4\<rparr>"
    by (simp add: grad_5_def)
  have w0: "wf_tensor empty_0" by (simp add: wf_tensor_def nelement_def empty_0_def)
  have c0: "compress (bit2byte_packing False) empty_0
     = Inr (\<lparr>shape = [0], data = [], element_size = 4\<rparr>, [0])"
    by code_simp
  from sign_roundtrip[OF w0, of False] obtain b0 where
    b0: "compress (bit2byte_packing False) empty_0 = Inr (b0, shape empty_0)"
    and u0: "uncompress bit2byte_unpacking b0 (shape empty_0)
               = Inr \<lparr>shape = shape empty_0,
                      data = map (\<lambda>x. if x = 0 then (if False then - 1 else 1) else sgn x) (data empty_0),
                      element_size = 4\<rparr>"
    by blast
  from b0 c0 have "b0 = \<lparr>shape = [0], data = [], element_size = 4\<rparr>" by auto
  with u0 have u00: "uncompress bit2byte_unpacking \<lparr>shape = [0], data = [], element_size = 4\<rparr> [0]
     = Inr \<lparr>shape = [0], data = [], element_size = 4\<rparr>"
    by (simp add: empty_0_def)
  show ?thesis
    by (intro conjI w c u5 w0 c0 u00)
qed

text \<open>
  Claim C2 as stated fails at a zero: the sign of \<open>[0]\<close> is \<open>[0]\<close>, and the round trip
  gives \<open>[1]\<close> when zero is packed with the positive signs and \<open>[-1]\<close> when it is packed
  with the negative ones.
\<close>

theorem sign_roundtrip_counterexample:
  "compress (bit2byte_packing False) zero_1
     = Inr (\<lparr>shape = [1], data = [0], element_size = 4\<rparr>, [1]) \<and>
   uncompress bit2byte_unpacking \<lparr>shape = [1], data = [0], element_size = 4\<rparr> [1]
     = Inr \<lparr>shape = [1], data = [1], element_size = 4\<rparr> \<and>
   compress (bit2byte_packing True) zero_1
     = Inr (\<lparr>shape = [1], data = [- 1], element_size = 4\<rparr>, [1]) \<and>
   uncompress bit2byte_unpacking \<lparr>shape = [1], data = [- 1], element_size = 4\<rparr> [1]
     = Inr \<lparr>shape = [1], data = [- 1], element_size = 4\<rparr> \<and>
   sign zero_1 = \<lparr>shape = [1], data = [0], element_size = 4\<rparr>"
  by code_simp

end
